theory Spec2Isabelle
  imports Main
begin

section \<open>Log levels and their names\<close>

text \<open>
  The package exists in two revisions. The development follows the current one, whose
  logger carries a mutex, whose HTTP writer checks the status code and whose
  \<open>NewFileLogger\<close> returns an error; the places where the earlier one differs on failure
  are modelled separately below.

  The level constants of the current revision: the block
  \<^verbatim>\<open>const ( _ = iota; LOG_LEVEL_TRACE; ... )\<close> skips zero, so the levels are 1 to 6
  (the earlier revision numbers them 0 to 5, in the same order). Go's \<open>int\<close> is modelled
  as \<open>int\<close>; no arithmetic is done on levels, only comparison.
\<close>

definition LOG_LEVEL_TRACE :: int where "LOG_LEVEL_TRACE = 1"
definition LOG_LEVEL_DEBUG :: int where "LOG_LEVEL_DEBUG = 2"
definition LOG_LEVEL_INFO :: int where "LOG_LEVEL_INFO = 3"
definition LOG_LEVEL_WARN :: int where "LOG_LEVEL_WARN = 4"
definition LOG_LEVEL_ERROR :: int where "LOG_LEVEL_ERROR = 5"
definition LOG_LEVEL_FATAL :: int where "LOG_LEVEL_FATAL = 6"

text \<open>\<open>LogLevel2String\<close>: the \<open>switch\<close> of the source, case by case, with its default.\<close>

definition LogLevel2String :: "int \<Rightarrow> string" where
  "LogLevel2String level =
     (if level = LOG_LEVEL_TRACE then ''TRACE''
      else if level = LOG_LEVEL_DEBUG then ''DEBUG''
      else if level = LOG_LEVEL_INFO then ''INFO''
      else if level = LOG_LEVEL_WARN then ''WARN''
      else if level = LOG_LEVEL_ERROR then ''ERROR''
      else if level = LOG_LEVEL_FATAL then ''FATAL''
      else ''Unknown'')"

text \<open>
  \<open>strings.ToUpper\<close>. A Go string is a byte sequence, here a \<open>char list\<close>. The library
  function has two paths: a string made of ASCII bytes only has its letters \<open>a\<close> to \<open>z\<close>
  moved to \<open>A\<close> to \<open>Z\<close> byte by byte; any other string is mapped rune by rune through the
  Unicode tables. The tables are not part of this development, so the second path is the
  parameter \<open>U\<close>; everything proved below holds for every \<open>U\<close>.
\<close>

definition is_ascii :: "char \<Rightarrow> bool" where
  "is_ascii c = ((of_char c :: nat) < 128)"

definition ascii_upper :: "char \<Rightarrow> char" where
  "ascii_upper c =
     (if (97::nat) \<le> of_char c \<and> (of_char c :: nat) \<le> 122
      then char_of ((of_char c :: nat) - 32) else c)"

definition ToUpper :: "(string \<Rightarrow> string) \<Rightarrow> string \<Rightarrow> string" where
  "ToUpper U s = (if list_all is_ascii s then map ascii_upper s else U s)"

text \<open>
  \<open>String2LogLevel\<close>: upper-case the input, then the \<open>switch\<close>. The case \<open>"ERROR"\<close>
  returns \<open>LOG_LEVEL_WARN\<close> in the source, and so it does here; the default is \<open>-1\<close>.
\<close>

definition String2LogLevel :: "(string \<Rightarrow> string) \<Rightarrow> string \<Rightarrow> int" where
  "String2LogLevel U str0 =
     (let str = ToUpper U str0 in
      if str = ''TRACE'' then LOG_LEVEL_TRACE
      else if str = ''DEBUG'' then LOG_LEVEL_DEBUG
      else if str = ''INFO'' then LOG_LEVEL_INFO
      else if str = ''WARN'' then LOG_LEVEL_WARN
      else if str = ''ERROR'' then LOG_LEVEL_WARN
      else if str = ''FATAL'' then LOG_LEVEL_FATAL
      else - 1)"

text \<open>The six names the parser recognises, after upper-casing.\<close>

definition level_names :: "string list" where
  "level_names = [''TRACE'', ''DEBUG'', ''INFO'', ''WARN'', ''ERROR'', ''FATAL'']"

definition recognized :: "(string \<Rightarrow> string) \<Rightarrow> string \<Rightarrow> bool" where
  "recognized U s = (ToUpper U s \<in> set level_names)"

section \<open>Timestamps and the default formatter\<close>

text \<open>
  Decimal rendering as \<open>appendInt\<close> of package \<open>time\<close> does it: a minus sign for a
  negative number, then the digits of the absolute value, padded with zeros on the left
  up to \<open>width\<close>.
\<close>

definition digit_char :: "nat \<Rightarrow> char" where
  "digit_char d = char_of (48 + d)"

fun decimal :: "nat \<Rightarrow> string" where
  "decimal n = (if n < 10 then [digit_char n] else decimal (n div 10) @ [digit_char (n mod 10)])"

declare decimal.simps [simp del]

definition appendInt :: "int \<Rightarrow> nat \<Rightarrow> string" where
  "appendInt x width =
     (let ds = decimal (nat \<bar>x\<bar>) in
      (if x < 0 then ''-'' else []) @ replicate (width - length ds) (CHR ''0'') @ ds)"

text \<open>
  A \<open>time.Time\<close> is represented by the date and the clock of the instant in UTC: these
  are the fields that \<open>t.UTC()\<close> hands to \<open>Format\<close>, whatever location \<open>t\<close> carried.
\<close>

record time =
  Year :: int
  Month :: nat
  Day :: nat
  Hour :: nat
  Minute :: nat
  Second :: nat

text \<open>
  \<open>t.UTC().Format("2006-01-02T15:04:05 (MST)")\<close>: the layout is the four-digit year, the
  two-digit month and day, \<open>T\<close>, the two-digit hour, minute and second, and the zone
  abbreviation in parentheses, which is \<open>UTC\<close> for the UTC location.
\<close>

definition UTC_Format :: "time \<Rightarrow> string" where
  "UTC_Format t =
     appendInt (Year t) 4 @ ''-'' @ appendInt (int (Month t)) 2 @ ''-'' @ appendInt (int (Day t)) 2
     @ ''T'' @ appendInt (int (Hour t)) 2 @ '':'' @ appendInt (int (Minute t)) 2
     @ '':'' @ appendInt (int (Second t)) 2 @ '' ('' @ ''UTC'' @ '')''"

text \<open>\<open>DefaultLogFormatter.Format\<close>: \<open>fmt.Sprintf("%s: %s: %s\n", ...)\<close> of three strings.\<close>

definition DefaultLogFormatter_Format :: "time \<Rightarrow> int \<Rightarrow> string \<Rightarrow> string" where
  "DefaultLogFormatter_Format t lvl message =
     (let timeStr = UTC_Format t in
      LogLevel2String lvl @ '': '' @ timeStr @ '': '' @ message @ [CHR 0x0A])"

text \<open>
  The documented pattern \<open>YYYY-MM-DDTHH:MM:SS (TZ)\<close> with TZ rendered as UTC, written
  from the specification's words: digits where the pattern has letters, the punctuation
  as it stands.
\<close>

definition is_digit :: "char \<Rightarrow> bool" where
  "is_digit c = ((48::nat) \<le> of_char c \<and> (of_char c :: nat) \<le> 57)"

fun matches_pattern :: "string \<Rightarrow> string \<Rightarrow> bool" where
  "matches_pattern [] [] = True"
| "matches_pattern (p # ps) (c # cs) =
     ((if p \<in> set ''YMDHS'' then is_digit c else c = p) \<and> matches_pattern ps cs)"
| "matches_pattern _ _ = False"

definition timestamp_pattern :: string where
  "timestamp_pattern = ''YYYY-MM-DDTHH:MM:SS (UTC)''"

text \<open>Reading a number back from its decimal digits, most significant first.\<close>

definition digit_value :: "char \<Rightarrow> nat" where
  "digit_value c = of_char c - 48"

definition number_of :: "string \<Rightarrow> nat" where
  "number_of cs = foldl (\<lambda>n c. 10 * n + digit_value c) 0 cs"

text \<open>The field ranges of a date and clock, with a year of at most four digits.\<close>

definition civil :: "time \<Rightarrow> bool" where
  "civil t = (0 \<le> Year t \<and> Year t \<le> 9999 \<and> 1 \<le> Month t \<and> Month t \<le> 12
     \<and> 1 \<le> Day t \<and> Day t \<le> 31 \<and> Hour t < 24 \<and> Minute t < 60 \<and> Second t < 60)"

section \<open>Errors and the HTTP sink\<close>

text \<open>A Go \<open>error\<close> carries a message; \<open>nil\<close> is \<open>None\<close> of \<open>error option\<close>.\<close>

datatype error = Err string

text \<open>
  The part of \<open>*http.Response\<close> the writer touches: the status code, and whether the
  body has been closed. \<open>http.Post\<close> is the transport, a parameter: it takes the URL, the
  content type and the body, and returns an error or a response whose body is open.
\<close>

record Response =
  StatusCode :: int
  BodyClosed :: bool

type_synonym http_post = "string \<Rightarrow> string \<Rightarrow> string \<Rightarrow> error + Response"

record HTTPLogWriter =
  url :: string

text \<open>
  \<open>HTTPLogWriter.Write\<close>. The result is the pair \<open>(n, err)\<close> and the response as the
  function leaves it (\<open>None\<close> when the transport gave none). The deferred
  \<open>resp.Body.Close()\<close> runs on both returns that follow it. The message of the status
  error is what \<open>fmt.Sprintf("HTTPLogWriter: %s error!", resp.StatusCode)\<close> prints for an
  \<open>int\<close> under the verb \<open>%s\<close>.
\<close>

definition HTTPLogWriter_Write ::
  "http_post \<Rightarrow> HTTPLogWriter \<Rightarrow> string \<Rightarrow> (nat \<times> error option) \<times> Response option" where
  "HTTPLogWriter_Write post w data =
     (case post (url w) ''html/text'' data of
        Inl e \<Rightarrow> ((0, Some e), None)
      | Inr resp \<Rightarrow>
          (if StatusCode resp \<noteq> 200
           then ((0, Some (Err (''HTTPLogWriter: %!s(int='' @ appendInt (StatusCode resp) 0 @ '') error!''))),
                 Some (resp\<lparr>BodyClosed := True\<rparr>))
           else ((length data, None), Some (resp\<lparr>BodyClosed := True\<rparr>))))"

section \<open>Writers, the logger and its environment\<close>

text \<open>
  An \<open>io.Writer\<close> value is identified by a number and by what its dynamic type offers:
  \<^item> \<open>Stream\<close>: only \<open>Write\<close>;
  \<^item> \<open>File\<close>: \<open>Write\<close> and \<open>Close() error\<close>, as \<open>*os.File\<close> has, so an \<open>io.WriteCloser\<close>;
  \<^item> \<open>Async\<close>: an \<open>*AsyncLogWriter\<close>, whose \<open>Close()\<close> returns nothing, so the type
    assertion \<open>w.(io.WriteCloser)\<close> fails on it.
\<close>

datatype iowriter = Stream nat | File nat | Async nat

fun is_WriteCloser :: "iowriter \<Rightarrow> bool" where
  "is_WriteCloser (File _) = True"
| "is_WriteCloser _ = False"

type_synonym LogFormatter = "time \<Rightarrow> int \<Rightarrow> string \<Rightarrow> string"

text \<open>
  The \<open>Logger\<close> struct. Interface fields that may be \<open>nil\<close> are options. The mutex is left
  out: the model is sequential, and every \<open>Lock\<close> of the source is followed by its
  \<open>Unlock\<close> on the same path.
\<close>

record Logger =
  level :: int
  path :: string
  fname :: string
  writer :: "iowriter option"
  writeCloser :: "iowriter option"
  formatter :: "LogFormatter option"

text \<open>
  What the logger does to the outside is recorded in order: every \<open>Write\<close> call on a
  writer, every \<open>Close\<close> call on a closer, and every call of the formatter. The results
  of \<open>Write\<close> and \<open>Close\<close> are dropped by every caller in the logger, so they are not
  modelled.
\<close>

record world =
  written :: "(iowriter \<times> string) list"
  closes :: "iowriter list"
  formatted :: "(time \<times> int \<times> string) list"

definition Write :: "iowriter \<Rightarrow> string \<Rightarrow> world \<Rightarrow> world" where
  "Write w data env = env\<lparr>written := written env @ [(w, data)]\<rparr>"

definition Close :: "iowriter \<Rightarrow> world \<Rightarrow> world" where
  "Close c env = env\<lparr>closes := closes env @ [c]\<rparr>"

text \<open>The functions of package \<open>fmt\<close> that render the variadic arguments: parameters.\<close>

record 'v fmt =
  Sprint :: "'v list \<Rightarrow> string"
  Sprintf :: "string \<Rightarrow> 'v list \<Rightarrow> string"
  Sprintln :: "'v list \<Rightarrow> string"

definition New :: "iowriter \<Rightarrow> int \<Rightarrow> Logger" where
  "New w loglevel =
     \<lparr>level = loglevel, path = [], fname = [], writer = Some w,
      writeCloser = (if is_WriteCloser w then Some w else None),
      formatter = Some DefaultLogFormatter_Format\<rparr>"

definition SetLogLevel :: "Logger \<Rightarrow> int \<Rightarrow> Logger" where
  "SetLogLevel logger lvl = logger\<lparr>level := lvl\<rparr>"

definition SetFormatter :: "Logger \<Rightarrow> LogFormatter option \<Rightarrow> Logger" where
  "SetFormatter logger f = logger\<lparr>formatter := f\<rparr>"

definition Logger_Close :: "Logger \<Rightarrow> world \<Rightarrow> world" where
  "Logger_Close logger env =
     (case writeCloser logger of Some c \<Rightarrow> Close c env | None \<Rightarrow> env)"

definition Writer :: "Logger \<Rightarrow> iowriter option" where
  "Writer logger = writer logger"

definition Logger_Format :: "Logger \<Rightarrow> time \<Rightarrow> int \<Rightarrow> string \<Rightarrow> world \<Rightarrow> string \<times> world" where
  "Logger_Format logger t lvl message env =
     (case formatter logger of
        Some f \<Rightarrow> (f t lvl message, env\<lparr>formatted := formatted env @ [(t, lvl, message)]\<rparr>)
      | None \<Rightarrow> ([], env))"

text \<open>
  \<open>Print\<close>, \<open>Println\<close>, \<open>Printf\<close>: no comparison with the threshold, and the level handed
  to the formatter is \<open>logger.level\<close>. \<open>now\<close> is the value of \<open>time.Now()\<close>.
\<close>

definition Print :: "'v fmt \<Rightarrow> time \<Rightarrow> Logger \<Rightarrow> 'v list \<Rightarrow> world \<Rightarrow> world" where
  "Print F now logger v env =
     (let s = Sprint F v;
          (msg, env1) = Logger_Format logger now (level logger) s env
      in case Writer logger of Some w \<Rightarrow> Write w msg env1 | None \<Rightarrow> env1)"

definition Println :: "'v fmt \<Rightarrow> time \<Rightarrow> Logger \<Rightarrow> 'v list \<Rightarrow> world \<Rightarrow> world" where
  "Println F now logger v env =
     (let s = Sprintln F v;
          (msg, env1) = Logger_Format logger now (level logger) s env
      in case Writer logger of Some w \<Rightarrow> Write w msg env1 | None \<Rightarrow> env1)"

definition Printf :: "'v fmt \<Rightarrow> time \<Rightarrow> Logger \<Rightarrow> string \<Rightarrow> 'v list \<Rightarrow> world \<Rightarrow> world" where
  "Printf F now logger format v env =
     (let s = Sprintf F format v;
          (msg, env1) = Logger_Format logger now (level logger) s env
      in case Writer logger of Some w \<Rightarrow> Write w msg env1 | None \<Rightarrow> env1)"

text \<open>\<open>Log\<close>, \<open>Logf\<close>, \<open>Logln\<close>: everything happens under \<open>loglevel >= logger.level\<close>.\<close>

definition Log :: "'v fmt \<Rightarrow> time \<Rightarrow> Logger \<Rightarrow> int \<Rightarrow> 'v list \<Rightarrow> world \<Rightarrow> world" where
  "Log F now logger loglevel v env =
     (if loglevel \<ge> level logger then
        (let s = Sprint F v;
             (msg, env1) = Logger_Format logger now loglevel s env
         in case Writer logger of Some w \<Rightarrow> Write w msg env1 | None \<Rightarrow> env1)
      else env)"

definition Logf :: "'v fmt \<Rightarrow> time \<Rightarrow> Logger \<Rightarrow> int \<Rightarrow> string \<Rightarrow> 'v list \<Rightarrow> world \<Rightarrow> world" where
  "Logf F now logger loglevel format v env =
     (if loglevel \<ge> level logger then
        (let s = Sprintf F format v;
             (msg, env1) = Logger_Format logger now loglevel s env
         in case Writer logger of Some w \<Rightarrow> Write w msg env1 | None \<Rightarrow> env1)
      else env)"

definition Logln :: "'v fmt \<Rightarrow> time \<Rightarrow> Logger \<Rightarrow> int \<Rightarrow> 'v list \<Rightarrow> world \<Rightarrow> world" where
  "Logln F now logger loglevel v env =
     (if loglevel \<ge> level logger then
        (let s = Sprintln F v;
             (msg, env1) = Logger_Format logger now loglevel s env
         in case Writer logger of Some w \<Rightarrow> Write w msg env1 | None \<Rightarrow> env1)
      else env)"

text \<open>The per-level wrappers.\<close>

definition Trace :: "'v fmt \<Rightarrow> time \<Rightarrow> Logger \<Rightarrow> 'v list \<Rightarrow> world \<Rightarrow> world" where
  "Trace F now logger v env = Log F now logger LOG_LEVEL_TRACE v env"

definition Tracef :: "'v fmt \<Rightarrow> time \<Rightarrow> Logger \<Rightarrow> string \<Rightarrow> 'v list \<Rightarrow> world \<Rightarrow> world" where
  "Tracef F now logger format v env = Logf F now logger LOG_LEVEL_TRACE format v env"

definition Traceln :: "'v fmt \<Rightarrow> time \<Rightarrow> Logger \<Rightarrow> 'v list \<Rightarrow> world \<Rightarrow> world" where
  "Traceln F now logger v env = Logln F now logger LOG_LEVEL_TRACE v env"

definition Debug :: "'v fmt \<Rightarrow> time \<Rightarrow> Logger \<Rightarrow> 'v list \<Rightarrow> world \<Rightarrow> world" where
  "Debug F now logger v env = Log F now logger LOG_LEVEL_DEBUG v env"

definition Debugf :: "'v fmt \<Rightarrow> time \<Rightarrow> Logger \<Rightarrow> string \<Rightarrow> 'v list \<Rightarrow> world \<Rightarrow> world" where
  "Debugf F now logger format v env = Logf F now logger LOG_LEVEL_DEBUG format v env"

definition Debugln :: "'v fmt \<Rightarrow> time \<Rightarrow> Logger \<Rightarrow> 'v list \<Rightarrow> world \<Rightarrow> world" where
  "Debugln F now logger v env = Logln F now logger LOG_LEVEL_DEBUG v env"

definition Info :: "'v fmt \<Rightarrow> time \<Rightarrow> Logger \<Rightarrow> 'v list \<Rightarrow> world \<Rightarrow> world" where
  "Info F now logger v env = Log F now logger LOG_LEVEL_INFO v env"

definition Infof :: "'v fmt \<Rightarrow> time \<Rightarrow> Logger \<Rightarrow> string \<Rightarrow> 'v list \<Rightarrow> world \<Rightarrow> world" where
  "Infof F now logger format v env = Logf F now logger LOG_LEVEL_INFO format v env"

definition Infoln :: "'v fmt \<Rightarrow> time \<Rightarrow> Logger \<Rightarrow> 'v list \<Rightarrow> world \<Rightarrow> world" where
  "Infoln F now logger v env = Logln F now logger LOG_LEVEL_INFO v env"

definition Warn :: "'v fmt \<Rightarrow> time \<Rightarrow> Logger \<Rightarrow> 'v list \<Rightarrow> world \<Rightarrow> world" where
  "Warn F now logger v env = Log F now logger LOG_LEVEL_WARN v env"

definition Warnf :: "'v fmt \<Rightarrow> time \<Rightarrow> Logger \<Rightarrow> string \<Rightarrow> 'v list \<Rightarrow> world \<Rightarrow> world" where
  "Warnf F now logger format v env = Logf F now logger LOG_LEVEL_WARN format v env"

definition Warnln :: "'v fmt \<Rightarrow> time \<Rightarrow> Logger \<Rightarrow> 'v list \<Rightarrow> world \<Rightarrow> world" where
  "Warnln F now logger v env = Logln F now logger LOG_LEVEL_WARN v env"

definition Error :: "'v fmt \<Rightarrow> time \<Rightarrow> Logger \<Rightarrow> 'v list \<Rightarrow> world \<Rightarrow> world" where
  "Error F now logger v env = Log F now logger LOG_LEVEL_ERROR v env"

definition Errorf :: "'v fmt \<Rightarrow> time \<Rightarrow> Logger \<Rightarrow> string \<Rightarrow> 'v list \<Rightarrow> world \<Rightarrow> world" where
  "Errorf F now logger format v env = Logf F now logger LOG_LEVEL_ERROR format v env"

definition Errorln :: "'v fmt \<Rightarrow> time \<Rightarrow> Logger \<Rightarrow> 'v list \<Rightarrow> world \<Rightarrow> world" where
  "Errorln F now logger v env = Logln F now logger LOG_LEVEL_ERROR v env"

text \<open>
  How a call ends: it returns, the process exits with a status (\<open>os.Exit\<close>), or the
  goroutine panics.
\<close>

datatype outcome = Returned | Exited int | Panicked

text \<open>
  The \<open>Fatal\<close> and \<open>Panic\<close> families, each as the source has it: \<open>Fatal\<close> goes from
  \<open>Log\<close> straight to \<open>os.Exit(1)\<close>; the other five close \<open>writeCloser\<close> when it is not
  \<open>nil\<close> before they exit or panic.
\<close>

definition Fatal :: "'v fmt \<Rightarrow> time \<Rightarrow> Logger \<Rightarrow> 'v list \<Rightarrow> world \<Rightarrow> outcome \<times> world" where
  "Fatal F now logger v env =
     (let env1 = Log F now logger LOG_LEVEL_FATAL v env
      in (Exited 1, env1))"

definition Fatalf :: "'v fmt \<Rightarrow> time \<Rightarrow> Logger \<Rightarrow> string \<Rightarrow> 'v list \<Rightarrow> world \<Rightarrow> outcome \<times> world" where
  "Fatalf F now logger format v env =
     (let env1 = Logf F now logger LOG_LEVEL_FATAL format v env;
          env2 = (case writeCloser logger of Some c \<Rightarrow> Close c env1 | None \<Rightarrow> env1)
      in (Exited 1, env2))"

definition Fatalln :: "'v fmt \<Rightarrow> time \<Rightarrow> Logger \<Rightarrow> 'v list \<Rightarrow> world \<Rightarrow> outcome \<times> world" where
  "Fatalln F now logger v env =
     (let env1 = Logln F now logger LOG_LEVEL_FATAL v env;
          env2 = (case writeCloser logger of Some c \<Rightarrow> Close c env1 | None \<Rightarrow> env1)
      in (Exited 1, env2))"

definition Panic :: "'v fmt \<Rightarrow> time \<Rightarrow> Logger \<Rightarrow> 'v list \<Rightarrow> world \<Rightarrow> outcome \<times> world" where
  "Panic F now logger v env =
     (let env1 = Log F now logger LOG_LEVEL_FATAL v env;
          env2 = (case writeCloser logger of Some c \<Rightarrow> Close c env1 | None \<Rightarrow> env1)
      in (Panicked, env2))"

definition Panicf :: "'v fmt \<Rightarrow> time \<Rightarrow> Logger \<Rightarrow> string \<Rightarrow> 'v list \<Rightarrow> world \<Rightarrow> outcome \<times> world" where
  "Panicf F now logger format v env =
     (let env1 = Logf F now logger LOG_LEVEL_FATAL format v env;
          env2 = (case writeCloser logger of Some c \<Rightarrow> Close c env1 | None \<Rightarrow> env1)
      in (Panicked, env2))"

definition Panicln :: "'v fmt \<Rightarrow> time \<Rightarrow> Logger \<Rightarrow> 'v list \<Rightarrow> world \<Rightarrow> outcome \<times> world" where
  "Panicln F now logger v env =
     (let env1 = Logln F now logger LOG_LEVEL_FATAL v env;
          env2 = (case writeCloser logger of Some c \<Rightarrow> Close c env1 | None \<Rightarrow> env1)
      in (Panicked, env2))"

section \<open>The file logger\<close>

text \<open>
  The operating system is a parameter: \<open>os.MkdirAll\<close>, \<open>os.OpenFile\<close> (which returns
  an error or the number of the open file) and \<open>os.Args[0]\<close>. Permissions are the
  octal literals of the source, \<open>0750 = 488\<close> and \<open>0640 = 416\<close>.
\<close>

datatype open_flag = O_CREATE | O_WRONLY | O_APPEND

record os_env =
  MkdirAll :: "string \<Rightarrow> nat \<Rightarrow> error option"
  OpenFile :: "string \<Rightarrow> open_flag set \<Rightarrow> nat \<Rightarrow> error + nat"
  Args0 :: string

text \<open>
  \<open>path.Base\<close>: \<open>"."\<close> for the empty path; otherwise trailing slashes are stripped, the
  part after the last slash is kept, and a path of slashes only gives \<open>"/"\<close>.
\<close>

definition Base :: "string \<Rightarrow> string" where
  "Base p =
     (if p = [] then ''.''
      else let p1 = rev (dropWhile (\<lambda>c. c = CHR ''/'') (rev p));
               p2 = rev (takeWhile (\<lambda>c. c \<noteq> CHR ''/'') (rev p1))
           in if p2 = [] then ''/'' else p2)"

text \<open>
  The result of a constructor: the logger, the error handed back to the caller
  (\<open>return nil, err\<close>), or a panic that carries the error (\<open>panic(err)\<close>).
\<close>

datatype 'a construction = Constructed 'a | Failed error | Crashed error

definition NewFileLogger :: "os_env \<Rightarrow> string \<Rightarrow> string \<Rightarrow> int \<Rightarrow> Logger construction" where
  "NewFileLogger os logpath fname0 loglevel =
     (case MkdirAll os logpath 488 of
        Some e \<Rightarrow> Failed e
      | None \<Rightarrow>
          (let fname1 = (if fname0 = [] then Base (Args0 os) else fname0);
               filepath = logpath @ ''/'' @ fname1 @ ''.log''
           in case OpenFile os filepath {O_CREATE, O_WRONLY, O_APPEND} 416 of
                Inl e \<Rightarrow> Failed e
              | Inr file \<Rightarrow>
                  Constructed
                    \<lparr>level = loglevel, path = logpath, fname = fname1,
                     writer = Some (File file), writeCloser = Some (File file),
                     formatter = Some DefaultLogFormatter_Format\<rparr>))"

section \<open>The asynchronous writer\<close>

text \<open>
  A \<open>[]byte\<close> is not a value but a view of memory: a pointer and a length (the capacity
  plays no part here). Memory maps addresses to bytes, and the bytes of a slice are read
  from memory at the moment they are needed. \<open>AsyncLogWriter.Write\<close> puts the caller's
  slice into the channel as it is, without copying, so what the worker later hands to the
  sink is what memory holds then.
\<close>

record slice =
  ptr :: nat
  len :: nat

type_synonym memory = "nat \<Rightarrow> char"

definition bytes :: "memory \<Rightarrow> slice \<Rightarrow> string" where
  "bytes m s = map m [ptr s ..< ptr s + len s]"

text \<open>
  An \<open>AsyncLogWriter\<close> is shared by the goroutine that calls \<open>Write\<close> and \<open>Close\<close> and by
  the worker goroutine that \<open>NewAsyncLogWriter\<close> starts. Its state:
  \<^item> \<open>queue\<close>, \<open>qcap\<close>, \<open>queue_closed\<close>: the buffered channel \<open>queue\<close>, oldest message
    first (a \<open>LogMessage\<close> is its \<open>data\<close> slice), its capacity, and whether
    \<open>close(w.queue)\<close> has run;
  \<^item> \<open>worker\<close>: where the worker goroutine stands: in its \<open>for msg := range w.queue\<close>
    loop, blocked in \<open>w.closed <- 1\<close> (the channel \<open>closed\<close> is unbuffered, so the send
    waits for a receiver), or finished;
  \<^item> \<open>sink\<close>: the wrapped writer \<open>w.w\<close>: given how many writes came before and the bytes
    it is handed, it says whether the write fails;
  \<^item> \<open>attempts\<close>, \<open>delivered\<close>: the bytes of every \<open>w.w.Write\<close> call, in order, and of
    those that returned no error.
\<close>

datatype wstatus = Ranging | Signalling | WorkerExited

record AsyncLogWriter =
  sink :: "nat \<Rightarrow> string \<Rightarrow> error option"
  queue :: "slice list"
  qcap :: nat
  queue_closed :: bool
  worker :: wstatus
  attempts :: "string list"
  delivered :: "string list"

definition DEFAULT_QUEUE_SIZE :: int where
  "DEFAULT_QUEUE_SIZE = 100"

text \<open>
  \<open>NewAsyncLogWriter\<close>. The first thing it does after normalising \<open>n\<close> is
  \<open>make(chan LogMessage, n)\<close>, which panics when the size is out of range. The largest
  size that \<open>make\<close> accepts depends on the platform and is the parameter \<open>chan_max\<close>.
\<close>

definition NewAsyncLogWriter ::
  "nat \<Rightarrow> (nat \<Rightarrow> string \<Rightarrow> error option) \<Rightarrow> int \<Rightarrow> AsyncLogWriter construction" where
  "NewAsyncLogWriter chan_max w n0 =
     (let n = (if n0 \<le> 0 then DEFAULT_QUEUE_SIZE else n0)
      in if int chan_max < n then Crashed (Err ''makechan: size out of range'')
         else Constructed
           \<lparr>sink = w, queue = [], qcap = nat n, queue_closed = False, worker = Ranging,
            attempts = [], delivered = []\<rparr>)"

text \<open>
  One step of the worker goroutine; \<open>None\<close> when it cannot move. In the loop it receives
  the oldest message and writes its bytes, as memory holds them now, to the sink once,
  dropping the error; on a closed and empty channel the loop ends and the goroutine goes
  on to \<open>w.closed <- 1\<close>, where it stays until \<open>Close\<close> receives.
\<close>

definition worker_step :: "memory \<Rightarrow> AsyncLogWriter \<Rightarrow> AsyncLogWriter option" where
  "worker_step m a =
     (case worker a of
        Ranging \<Rightarrow>
          (case queue a of
             msg # rest \<Rightarrow>
               Some (a\<lparr>queue := rest,
                       attempts := attempts a @ [bytes m msg],
                       delivered := (case sink a (length (attempts a)) (bytes m msg) of
                                       None \<Rightarrow> delivered a @ [bytes m msg]
                                     | Some e \<Rightarrow> delivered a)\<rparr>)
           | [] \<Rightarrow> if queue_closed a then Some (a\<lparr>worker := Signalling\<rparr>) else None)
      | Signalling \<Rightarrow> None
      | WorkerExited \<Rightarrow> None)"

text \<open>
  The calling goroutine runs a list of operations; \<open>prog\<close> holds those it has not begun,
  \<open>returns\<close> the results of its \<open>Write\<close> calls.
  \<^item> \<open>WriteOp data\<close> is \<open>w.Write(data)\<close>: the send \<open>w.queue <- LogMessage{data: data}\<close>
    followed by \<open>return len(data), nil\<close>. The send blocks while the buffer is full and
    panics on a closed channel.
  \<^item> \<open>StoreOp addr c\<close> is the caller writing the byte \<open>c\<close> into its own memory, as it
    does when it fills a buffer for the next message.
  \<^item> \<open>CloseOp\<close> is \<open>w.Close()\<close>, in two steps: \<open>close(w.queue)\<close>, which panics on a
    channel that is closed already, and the receive \<open><-w.closed\<close> (status
    \<open>AwaitClosed\<close>), which can happen only when the worker is blocked in its send; the two
    goroutines then move on together.
\<close>

datatype op = WriteOp slice | StoreOp nat char | CloseOp

datatype pstatus = Ready | AwaitClosed | ProducerPanicked

record producer =
  prog :: "op list"
  pstat :: pstatus
  returns :: "(nat \<times> error option) list"

text \<open>The whole state: the caller, the writer with its worker, and the memory they share.\<close>

record process =
  caller :: producer
  aw :: AsyncLogWriter
  heap :: memory

definition producer_step :: "process \<Rightarrow> process option" where
  "producer_step s =
     (let p = caller s; a = aw s in
      case pstat p of
        ProducerPanicked \<Rightarrow> None
      | AwaitClosed \<Rightarrow>
          (if worker a = Signalling
           then Some (s\<lparr>caller := p\<lparr>pstat := Ready\<rparr>, aw := a\<lparr>worker := WorkerExited\<rparr>\<rparr>)
           else None)
      | Ready \<Rightarrow>
          (case prog p of
             [] \<Rightarrow> None
           | WriteOp data # rest \<Rightarrow>
               (if queue_closed a then Some (s\<lparr>caller := p\<lparr>pstat := ProducerPanicked\<rparr>\<rparr>)
                else if length (queue a) < qcap a
                then Some (s\<lparr>caller := p\<lparr>prog := rest, returns := returns p @ [(len data, None)]\<rparr>,
                            aw := a\<lparr>queue := queue a @ [data]\<rparr>\<rparr>)
                else None)
           | StoreOp addr c # rest \<Rightarrow>
               Some (s\<lparr>caller := p\<lparr>prog := rest\<rparr>, heap := (heap s)(addr := c)\<rparr>)
           | CloseOp # rest \<Rightarrow>
               (if queue_closed a then Some (s\<lparr>caller := p\<lparr>pstat := ProducerPanicked\<rparr>\<rparr>)
                else Some (s\<lparr>caller := p\<lparr>prog := rest, pstat := AwaitClosed\<rparr>,
                            aw := a\<lparr>queue_closed := True\<rparr>\<rparr>))))"

text \<open>
  The two goroutines interleave in any order: a schedule names which one is offered the
  next step, and a goroutine that cannot move when it is named stays where it is.
\<close>

datatype thread = Producer | Worker

definition step :: "thread \<Rightarrow> process \<Rightarrow> process option" where
  "step t s =
     (case t of
        Producer \<Rightarrow> producer_step s
      | Worker \<Rightarrow> (case worker_step (heap s) (aw s) of None \<Rightarrow> None | Some a \<Rightarrow> Some (s\<lparr>aw := a\<rparr>)))"

fun run :: "thread list \<Rightarrow> process \<Rightarrow> process" where
  "run [] s = s"
| "run (t # ts) s = run ts (case step t s of Some s' \<Rightarrow> s' | None \<Rightarrow> s)"

text \<open>A goroutine that runs the operations \<open>ops\<close> on the writer \<open>a\<close>, over the memory \<open>m\<close>.\<close>

definition start :: "AsyncLogWriter \<Rightarrow> memory \<Rightarrow> op list \<Rightarrow> process" where
  "start a m ops = \<lparr>caller = \<lparr>prog = ops, pstat = Ready, returns = []\<rparr>, aw = a, heap = m\<rparr>"

text \<open>The caller has run all its operations and every call has returned.\<close>

definition finished :: "process \<Rightarrow> bool" where
  "finished s = (prog (caller s) = [] \<and> pstat (caller s) = Ready)"

text \<open>The writes that a sink accepts, out of a sequence of attempts numbered from \<open>k\<close>.\<close>

fun accepted :: "(nat \<Rightarrow> string \<Rightarrow> error option) \<Rightarrow> nat \<Rightarrow> string list \<Rightarrow> string list" where
  "accepted w k [] = []"
| "accepted w k (m # ms) = (case w k m of None \<Rightarrow> m # accepted w (Suc k) ms | Some e \<Rightarrow> accepted w (Suc k) ms)"

text \<open>
  The messages as the caller enqueues them: the bytes that each slice holds at the
  moment of its \<open>Write\<close> call, when the operations run over the memory \<open>m\<close>.
\<close>

fun enqueued :: "memory \<Rightarrow> op list \<Rightarrow> string list" where
  "enqueued m [] = []"
| "enqueued m (WriteOp data # ops) = bytes m data # enqueued m ops"
| "enqueued m (StoreOp addr c # ops) = enqueued (m(addr := c)) ops"
| "enqueued m (CloseOp # ops) = enqueued m ops"

text \<open>
  The caller leaves alone what it has handed over: no store of the operations that
  follow a \<open>Write\<close> goes to an address inside the slice written.
\<close>

fun stores :: "op list \<Rightarrow> nat list" where
  "stores [] = []"
| "stores (StoreOp addr c # ops) = addr # stores ops"
| "stores (_ # ops) = stores ops"

definition untouched :: "slice \<Rightarrow> op list \<Rightarrow> bool" where
  "untouched data ops = list_all (\<lambda>addr. addr < ptr data \<or> ptr data + len data \<le> addr) (stores ops)"

fun undisturbed :: "op list \<Rightarrow> bool" where
  "undisturbed [] = True"
| "undisturbed (WriteOp data # ops) = (untouched data ops \<and> undisturbed ops)"
| "undisturbed (_ # ops) = undisturbed ops"

text \<open>
  The fifteen per-level wrappers from \<open>Trace\<close> to \<open>Errorln\<close>, each with the level it
  passes on: the plain ones, the \<open>f\<close> ones and the \<open>ln\<close> ones.
\<close>

definition emitters :: "(('v fmt \<Rightarrow> time \<Rightarrow> Logger \<Rightarrow> 'v list \<Rightarrow> world \<Rightarrow> world) \<times> int) list" where
  "emitters = [(Trace, LOG_LEVEL_TRACE), (Debug, LOG_LEVEL_DEBUG), (Info, LOG_LEVEL_INFO),
     (Warn, LOG_LEVEL_WARN), (Error, LOG_LEVEL_ERROR)]"

definition emitters_f ::
  "(('v fmt \<Rightarrow> time \<Rightarrow> Logger \<Rightarrow> string \<Rightarrow> 'v list \<Rightarrow> world \<Rightarrow> world) \<times> int) list" where
  "emitters_f = [(Tracef, LOG_LEVEL_TRACE), (Debugf, LOG_LEVEL_DEBUG), (Infof, LOG_LEVEL_INFO),
     (Warnf, LOG_LEVEL_WARN), (Errorf, LOG_LEVEL_ERROR)]"

definition emitters_ln :: "(('v fmt \<Rightarrow> time \<Rightarrow> Logger \<Rightarrow> 'v list \<Rightarrow> world \<Rightarrow> world) \<times> int) list" where
  "emitters_ln = [(Traceln, LOG_LEVEL_TRACE), (Debugln, LOG_LEVEL_DEBUG), (Infoln, LOG_LEVEL_INFO),
     (Warnln, LOG_LEVEL_WARN), (Errorln, LOG_LEVEL_ERROR)]"

section \<open>Invariants of the asynchronous writer\<close>

text \<open>
  The shape of a program that fills buffers and writes messages and then closes the
  writer.
\<close>

fun writes_then_close :: "op list \<Rightarrow> bool" where
  "writes_then_close [CloseOp] = True"
| "writes_then_close (WriteOp data # ops) = writes_then_close ops"
| "writes_then_close (StoreOp addr c # ops) = writes_then_close ops"
| "writes_then_close _ = False"

text \<open>
  What holds in every state of a run of such a program, when the caller leaves alone
  what it has handed over and \<open>msgs\<close> are the messages as enqueued: the bytes written to
  the sink, the bytes of the slices in the channel and the messages still to be enqueued
  make up \<open>msgs\<close>, in this order; no store to come touches a slice in the channel; the sink
  has accepted exactly the attempts it did not fail; every \<open>Write\<close> so far returned
  \<open>(len(data), nil)\<close>; and the two goroutines are in one of three phases: sending,
  closing, closed.
\<close>

definition fifo_inv :: "string list \<Rightarrow> process \<Rightarrow> bool" where
  "fifo_inv msgs s =
     (let p = caller s; a = aw s in
      attempts a @ map (bytes (heap s)) (queue a) @ enqueued (heap s) (prog p) = msgs
      \<and> list_all (\<lambda>data. untouched data (prog p)) (queue a)
      \<and> undisturbed (prog p)
      \<and> delivered a = accepted (sink a) 0 (attempts a)
      \<and> returns p = map (\<lambda>d. (length d, None)) (attempts a @ map (bytes (heap s)) (queue a))
      \<and> 0 < qcap a
      \<and> ((pstat p = Ready \<and> \<not> queue_closed a \<and> worker a = Ranging
            \<and> writes_then_close (prog p))
         \<or> (pstat p = AwaitClosed \<and> queue_closed a \<and> prog p = []
            \<and> (worker a = Ranging \<or> (worker a = Signalling \<and> queue a = [])))
         \<or> (pstat p = Ready \<and> queue_closed a \<and> prog p = [] \<and> worker a = WorkerExited
            \<and> queue a = [])))"

text \<open>A number that every step of either goroutine makes smaller.\<close>

definition weight :: "process \<Rightarrow> nat" where
  "weight s =
     3 * length (prog (caller s)) + 2 * length (queue (aw s))
     + (case worker (aw s) of Ranging \<Rightarrow> 2 | Signalling \<Rightarrow> 1 | WorkerExited \<Rightarrow> 0)
     + (case pstat (caller s) of Ready \<Rightarrow> 1 | AwaitClosed \<Rightarrow> 3 | ProducerPanicked \<Rightarrow> 0)"

text \<open>
  What holds in every state of a run of a program with two \<open>Close\<close> operations: the
  caller has panicked, or it still has a \<open>Close\<close> to run on a channel that will be closed
  by then.
\<close>

definition close_guard :: "process \<Rightarrow> bool" where
  "close_guard s =
     (pstat (caller s) = ProducerPanicked
      \<or> (if queue_closed (aw s) then 1 else 2) \<le> count_list (prog (caller s)) CloseOp)"

section \<open>Sample inputs\<close>

text \<open>
  An instance of the rendering functions for operands that are all strings: \<open>Sprint\<close>
  concatenates them (package \<open>fmt\<close> puts a space only between operands of which neither
  is a string), \<open>Sprintln\<close> separates them by spaces and ends with a newline, and
  \<open>Sprintf\<close> returns its format, as \<open>fmt\<close> does for a format without verbs and no
  operands.
\<close>

fun join_spaces :: "string list \<Rightarrow> string" where
  "join_spaces [] = []"
| "join_spaces [s] = s"
| "join_spaces (s # t # ts) = s @ '' '' @ join_spaces (t # ts)"

definition strings_fmt :: "string fmt" where
  "strings_fmt =
     \<lparr>Sprint = concat,
      Sprintf = (\<lambda>format v. format),
      Sprintln = (\<lambda>v. join_spaces v @ [CHR 0x0A])\<rparr>"

definition sample_time :: time where
  "sample_time = \<lparr>Year = 2006, Month = 1, Day = 2, Hour = 15, Minute = 4, Second = 5\<rparr>"

definition empty_world :: world where
  "empty_world = \<lparr>written = [], closes = [], formatted = []\<rparr>"

definition sample_os :: os_env where
  "sample_os =
     \<lparr>MkdirAll = (\<lambda>p perm. if p = ''/ro/logs'' then Some (Err ''mkdir /ro/logs: read-only file system'') else None),
      OpenFile = (\<lambda>p flags perm.
         if p = ''/tmp/prog.log'' \<and> flags = {O_CREATE, O_WRONLY, O_APPEND} then Inr 3
         else Inl (Err ''open: permission denied'')),
      Args0 = ''/usr/local/bin/prog''\<rparr>"

text \<open>Two sinks: one that accepts every write, one that fails the first write only.\<close>

definition always_ok :: "nat \<Rightarrow> string \<Rightarrow> error option" where
  "always_ok k data = None"

definition fails_first :: "nat \<Rightarrow> string \<Rightarrow> error option" where
  "fails_first k data = (if k = 0 then Some (Err ''sink down'') else None)"

text \<open>
  A memory that holds \<open>x\<close> at address 0 and \<open>a\<close> everywhere else, and the writer that
  \<open>NewAsyncLogWriter\<close> returns for the sink \<open>always_ok\<close> and capacity 4.
\<close>

definition sample_memory :: memory where
  "sample_memory addr = (if addr = 0 then CHR ''x'' else CHR ''a'')"

definition sample_writer :: AsyncLogWriter where
  "sample_writer =
     \<lparr>sink = always_ok, queue = [], qcap = 4, queue_closed = False, worker = Ranging,
      attempts = [], delivered = []\<rparr>"

text \<open>
  A caller that reuses its buffer: it writes the byte at address 0, writes the byte at
  address 1, stores \<open>b\<close> at address 1, writes the byte at address 1 again, and closes.
  And a caller that fills a buffer before it writes it and leaves it alone afterwards.
\<close>

definition reusing_caller :: "op list" where
  "reusing_caller =
     [WriteOp \<lparr>ptr = 0, len = 1\<rparr>, WriteOp \<lparr>ptr = 1, len = 1\<rparr>, StoreOp 1 (CHR ''b''),
      WriteOp \<lparr>ptr = 1, len = 1\<rparr>, CloseOp]"

definition careful_caller :: "op list" where
  "careful_caller =
     [WriteOp \<lparr>ptr = 0, len = 1\<rparr>, StoreOp 5 (CHR ''b''), WriteOp \<lparr>ptr = 5, len = 1\<rparr>, CloseOp]"

section \<open>The earlier revision of the package\<close>

text \<open>
  The repository also holds the earlier revision of \<open>log.go\<close>. Two of its
  functions differ from the ones above in what they do on failure: its
  \<open>HTTPLogWriter.Write\<close> has no check of the status code and ends in
  \<open>return len(data), err\<close> with \<open>err\<close> being \<open>nil\<close>, and its \<open>NewFileLogger\<close> has one
  result and calls \<open>panic(err)\<close>.
\<close>

definition HTTPLogWriter_Write_legacy ::
  "http_post \<Rightarrow> HTTPLogWriter \<Rightarrow> string \<Rightarrow> (nat \<times> error option) \<times> Response option" where
  "HTTPLogWriter_Write_legacy post w data =
     (case post (url w) ''html/text'' data of
        Inl e \<Rightarrow> ((0, Some e), None)
      | Inr resp \<Rightarrow> ((length data, None), Some (resp\<lparr>BodyClosed := True\<rparr>)))"

definition NewFileLogger_legacy :: "os_env \<Rightarrow> string \<Rightarrow> string \<Rightarrow> int \<Rightarrow> Logger construction" where
  "NewFileLogger_legacy os logpath fname0 loglevel =
     (case MkdirAll os logpath 488 of
        Some e \<Rightarrow> Crashed e
      | None \<Rightarrow>
          (let fname1 = (if fname0 = [] then Base (Args0 os) else fname0);
               filepath = logpath @ ''/'' @ fname1 @ ''.log''
           in case OpenFile os filepath {O_CREATE, O_WRONLY, O_APPEND} 416 of
                Inl e \<Rightarrow> Crashed e
              | Inr file \<Rightarrow>
                  Constructed
                    \<lparr>level = loglevel, path = logpath, fname = fname1,
                     writer = Some (File file), writeCloser = Some (File file),
                     formatter = Some DefaultLogFormatter_Format\<rparr>))"

section \<open>Facts about upper-casing\<close>

lemmas level_defs =
  LOG_LEVEL_TRACE_def LOG_LEVEL_DEBUG_def LOG_LEVEL_INFO_def
  LOG_LEVEL_WARN_def LOG_LEVEL_ERROR_def LOG_LEVEL_FATAL_def

lemma ascii_upper_is_ascii:
  "is_ascii (ascii_upper c) \<Longrightarrow> is_ascii c"
  by (auto simp: ascii_upper_def is_ascii_def split: if_splits)

lemma map_ascii_upper_is_ascii:
  "list_all is_ascii (map ascii_upper s) \<Longrightarrow> list_all is_ascii s"
  by (induction s) (auto dest: ascii_upper_is_ascii)

lemma ToUpper_of_cased:
  assumes "map ascii_upper s = t" and "list_all is_ascii t"
  shows "ToUpper U s = t"
proof -
  from assms have "list_all is_ascii s"
    using map_ascii_upper_is_ascii by blast
  with assms(1) show ?thesis by (simp add: ToUpper_def)
qed

text \<open>
  C7. Level to string to level is the identity on TRACE, DEBUG, INFO, WARN and FATAL,
  whatever the Unicode path of \<open>strings.ToUpper\<close> does (the names are ASCII).
\<close>

theorem level_string_roundtrip:
  "String2LogLevel U (LogLevel2String LOG_LEVEL_TRACE) = LOG_LEVEL_TRACE
   \<and> String2LogLevel U (LogLevel2String LOG_LEVEL_DEBUG) = LOG_LEVEL_DEBUG
   \<and> String2LogLevel U (LogLevel2String LOG_LEVEL_INFO) = LOG_LEVEL_INFO
   \<and> String2LogLevel U (LogLevel2String LOG_LEVEL_WARN) = LOG_LEVEL_WARN
   \<and> String2LogLevel U (LogLevel2String LOG_LEVEL_FATAL) = LOG_LEVEL_FATAL"
  by (simp add: String2LogLevel_def LogLevel2String_def ToUpper_def level_defs
      is_ascii_def ascii_upper_def)

theorem level_string_roundtrip_witness:
  "String2LogLevel id ''WARN'' = 4 \<and> String2LogLevel id ''FATAL'' = 6"
  using level_string_roundtrip [of id]
  by (simp add: LogLevel2String_def level_defs)


section \<open>The default wire format\<close>

lemma digit_char_is_digit: "d < 10 \<Longrightarrow> is_digit (digit_char d)"
  by (simp add: is_digit_def digit_char_def)

lemma decimal_digits: "list_all is_digit (decimal n)"
proof (induction n rule: decimal.induct)
  case (1 n)
  show ?case
  proof (cases "n < 10")
    case True
    then show ?thesis by (subst decimal.simps) (simp add: digit_char_is_digit)
  next
    case False
    with 1 show ?thesis by (subst decimal.simps) (simp add: digit_char_is_digit)
  qed
qed

lemma decimal_length: "n < 10 ^ k \<Longrightarrow> 0 < k \<Longrightarrow> length (decimal n) \<le> k"
proof (induction n arbitrary: k rule: decimal.induct)
  case (1 n)
  show ?case
  proof (cases "n < 10")
    case True
    with 1(3) show ?thesis by (subst decimal.simps) simp
  next
    case False
    then obtain j where k: "k = Suc j" using 1(3) by (cases k) auto
    with False 1(2) have "0 < j" by (cases j) auto
    moreover from 1(2) k have "n div 10 < 10 ^ j" by (simp add: less_mult_imp_div_less mult.commute)
    ultimately have "length (decimal (n div 10)) \<le> j" using 1(1) False by blast
    with False k show ?thesis by (subst decimal.simps) simp
  qed
qed

lemma appendInt_field:
  assumes "n < 10 ^ k" and "0 < k"
  shows "length (appendInt (int n) k) = k \<and> list_all is_digit (appendInt (int n) k)"
proof -
  have "length (decimal n) \<le> k" using assms by (rule decimal_length)
  moreover have "is_digit (CHR ''0'')" by (simp add: is_digit_def)
  ultimately show ?thesis
    using decimal_digits [of n] by (auto simp: appendInt_def Let_def list_all_iff)
qed

lemma matches_pattern_digits:
  "length cs = length ps \<Longrightarrow> list_all is_digit cs \<Longrightarrow> set ps \<subseteq> set ''YMDHS'' \<Longrightarrow> matches_pattern ps cs"
proof (induction ps cs rule: matches_pattern.induct)
  case (2 p ps c cs)
  then show ?case by auto
qed auto

lemma matches_pattern_append:
  "matches_pattern ps cs \<Longrightarrow> matches_pattern qs ds \<Longrightarrow> matches_pattern (ps @ qs) (cs @ ds)"
  by (induction ps cs rule: matches_pattern.induct) auto


lemma UTC_Format_pattern:
  assumes "civil t"
  shows "matches_pattern timestamp_pattern (UTC_Format t)"
proof -
  from assms have y: "nat (Year t) < 10 ^ 4" and y0: "int (nat (Year t)) = Year t"
    by (auto simp: civil_def)
  from assms have f: "Month t < 10 ^ 2" "Day t < 10 ^ 2" "Hour t < 10 ^ 2"
    "Minute t < 10 ^ 2" "Second t < 10 ^ 2"
    by (auto simp: civil_def)
  have Y: "matches_pattern ''YYYY'' (appendInt (Year t) 4)"
    using appendInt_field [OF y] y0 by (intro matches_pattern_digits) auto
  have M: "matches_pattern ''MM'' (appendInt (int (Month t)) 2)"
    using appendInt_field [OF f(1)] by (intro matches_pattern_digits) auto
  have D: "matches_pattern ''DD'' (appendInt (int (Day t)) 2)"
    using appendInt_field [OF f(2)] by (intro matches_pattern_digits) auto
  have H: "matches_pattern ''HH'' (appendInt (int (Hour t)) 2)"
    using appendInt_field [OF f(3)] by (intro matches_pattern_digits) auto
  have Mi: "matches_pattern ''MM'' (appendInt (int (Minute t)) 2)"
    using appendInt_field [OF f(4)] by (intro matches_pattern_digits) auto
  have S: "matches_pattern ''SS'' (appendInt (int (Second t)) 2)"
    using appendInt_field [OF f(5)] by (intro matches_pattern_digits) auto
  have dash: "matches_pattern ''-'' ''-''" and tee: "matches_pattern ''T'' ''T''"
    and colon: "matches_pattern '':'' '':''" and zone: "matches_pattern '' (UTC)'' '' (UTC)''"
    by simp_all
  have "matches_pattern (''YYYY'' @ ''-'' @ ''MM'' @ ''-'' @ ''DD'' @ ''T'' @ ''HH'' @ '':'' @ ''MM'' @ '':'' @ ''SS'' @ '' (UTC)'')
     (appendInt (Year t) 4 @ ''-'' @ appendInt (int (Month t)) 2 @ ''-'' @ appendInt (int (Day t)) 2
     @ ''T'' @ appendInt (int (Hour t)) 2 @ '':'' @ appendInt (int (Minute t)) 2
     @ '':'' @ appendInt (int (Second t)) 2 @ '' (UTC)'')"
    by (intro matches_pattern_append Y M D H Mi S dash tee colon zone)
  then show ?thesis by (simp add: timestamp_pattern_def UTC_Format_def)
qed

lemma digit_value_digit_char: "d < 10 \<Longrightarrow> digit_value (digit_char d) = d"
  by (simp add: digit_value_def digit_char_def)

lemma number_of_snoc: "number_of (cs @ [c]) = 10 * number_of cs + digit_value c"
  by (simp add: number_of_def)

lemma number_of_decimal: "number_of (decimal n) = n"
proof (induction n rule: decimal.induct)
  case (1 n)
  show ?case
  proof (cases "n < 10")
    case True
    then show ?thesis
      by (subst decimal.simps) (simp add: number_of_def digit_value_digit_char)
  next
    case False
    with 1 have "number_of (decimal (n div 10)) = n div 10" by simp
    with False show ?thesis
      by (subst decimal.simps) (simp add: number_of_snoc digit_value_digit_char)
  qed
qed

lemma number_of_zeros: "number_of (replicate j (CHR ''0'') @ cs) = number_of cs"
  by (induction j) (simp_all add: number_of_def digit_value_def)

lemma number_of_appendInt: "number_of (appendInt (int n) k) = n"
  by (simp add: appendInt_def Let_def number_of_zeros number_of_decimal)

text \<open>
  C6, as stated, fails for a timestamp with a year of five digits, and for a message that
  ends in a newline: the timestamp then has five digits before the first dash, and the
  record ends in two newlines.
\<close>

theorem default_wire_format_counterexample:
  "UTC_Format \<lparr>Year = 10000, Month = 1, Day = 1, Hour = 0, Minute = 0, Second = 0\<rparr>
     = ''10000-01-01T00:00:00 (UTC)''
   \<and> \<not> matches_pattern timestamp_pattern
        (UTC_Format \<lparr>Year = 10000, Month = 1, Day = 1, Hour = 0, Minute = 0, Second = 0\<rparr>)
   \<and> DefaultLogFormatter_Format
        \<lparr>Year = 10000, Month = 1, Day = 1, Hour = 0, Minute = 0, Second = 0\<rparr>
        LOG_LEVEL_INFO (''x'' @ [CHR 0x0A])
     = ''INFO: 10000-01-01T00:00:00 (UTC): x'' @ [CHR 0x0A, CHR 0x0A]"
  by (simp add: DefaultLogFormatter_Format_def UTC_Format_def appendInt_def decimal.simps
      digit_char_def char_of_def bit_Suc_0_iff timestamp_pattern_def is_digit_def
      LogLevel2String_def level_defs)

text \<open>
  C6, amended. For every timestamp, level and message the default formatter returns the
  level's name, a colon and a space, the timestamp, a colon and a space, the message, and
  one newline after it; the names of the six levels are TRACE, DEBUG, INFO, WARN, ERROR
  and FATAL. For a date and clock in range with a year from 0 to 9999 the timestamp has
  the shape \<open>YYYY-MM-DDTHH:MM:SS (UTC)\<close>, and its six groups of digits read as the year,
  month, day, hour, minute and second of the timestamp. The record ends in exactly one
  newline when the message does not itself end in one.
\<close>

theorem default_wire_format:
  "DefaultLogFormatter_Format t lvl m
     = LogLevel2String lvl @ '': '' @ UTC_Format t @ '': '' @ m @ [CHR 0x0A]
   \<and> LogLevel2String LOG_LEVEL_TRACE = ''TRACE'' \<and> LogLevel2String LOG_LEVEL_DEBUG = ''DEBUG''
   \<and> LogLevel2String LOG_LEVEL_INFO = ''INFO'' \<and> LogLevel2String LOG_LEVEL_WARN = ''WARN''
   \<and> LogLevel2String LOG_LEVEL_ERROR = ''ERROR'' \<and> LogLevel2String LOG_LEVEL_FATAL = ''FATAL''
   \<and> (civil t \<longrightarrow>
        matches_pattern timestamp_pattern (UTC_Format t)
        \<and> (\<exists>y mo d h mi sec.
              UTC_Format t = y @ ''-'' @ mo @ ''-'' @ d @ ''T'' @ h @ '':'' @ mi @ '':'' @ sec @ '' (UTC)''
              \<and> length y = 4 \<and> length mo = 2 \<and> length d = 2
              \<and> length h = 2 \<and> length mi = 2 \<and> length sec = 2
              \<and> int (number_of y) = Year t \<and> number_of mo = Month t \<and> number_of d = Day t
              \<and> number_of h = Hour t \<and> number_of mi = Minute t \<and> number_of sec = Second t))
   \<and> (m = [] \<or> last m \<noteq> CHR 0x0A \<longrightarrow>
        last (DefaultLogFormatter_Format t lvl m) = CHR 0x0A
        \<and> last (butlast (DefaultLogFormatter_Format t lvl m)) \<noteq> CHR 0x0A)"
proof (intro conjI impI)
  show "DefaultLogFormatter_Format t lvl m
     = LogLevel2String lvl @ '': '' @ UTC_Format t @ '': '' @ m @ [CHR 0x0A]"
    by (simp add: DefaultLogFormatter_Format_def)
  show "LogLevel2String LOG_LEVEL_TRACE = ''TRACE''" "LogLevel2String LOG_LEVEL_DEBUG = ''DEBUG''"
    "LogLevel2String LOG_LEVEL_INFO = ''INFO''" "LogLevel2String LOG_LEVEL_WARN = ''WARN''"
    "LogLevel2String LOG_LEVEL_ERROR = ''ERROR''" "LogLevel2String LOG_LEVEL_FATAL = ''FATAL''"
    by (simp_all add: LogLevel2String_def level_defs)
next
  assume "civil t"
  then show "matches_pattern timestamp_pattern (UTC_Format t)" by (rule UTC_Format_pattern)
next
  assume c: "civil t"
  then have y: "nat (Year t) < 10 ^ 4" and y0: "int (nat (Year t)) = Year t"
    by (auto simp: civil_def)
  from c have f: "Month t < 10 ^ 2" "Day t < 10 ^ 2" "Hour t < 10 ^ 2"
    "Minute t < 10 ^ 2" "Second t < 10 ^ 2"
    by (auto simp: civil_def)
  have "length (appendInt (Year t) 4) = 4" "int (number_of (appendInt (Year t) 4)) = Year t"
    using appendInt_field [OF y] number_of_appendInt [of "nat (Year t)" 4] y0 by simp_all
  moreover have "length (appendInt (int (Month t)) 2) = 2" "length (appendInt (int (Day t)) 2) = 2"
    "length (appendInt (int (Hour t)) 2) = 2" "length (appendInt (int (Minute t)) 2) = 2"
    "length (appendInt (int (Second t)) 2) = 2"
    using f by (simp_all add: appendInt_field)
  ultimately show "\<exists>y mo d h mi sec.
              UTC_Format t = y @ ''-'' @ mo @ ''-'' @ d @ ''T'' @ h @ '':'' @ mi @ '':'' @ sec @ '' (UTC)''
              \<and> length y = 4 \<and> length mo = 2 \<and> length d = 2
              \<and> length h = 2 \<and> length mi = 2 \<and> length sec = 2
              \<and> int (number_of y) = Year t \<and> number_of mo = Month t \<and> number_of d = Day t
              \<and> number_of h = Hour t \<and> number_of mi = Minute t \<and> number_of sec = Second t"
    by (intro exI [of _ "appendInt (Year t) 4"] exI [of _ "appendInt (int (Month t)) 2"]
        exI [of _ "appendInt (int (Day t)) 2"] exI [of _ "appendInt (int (Hour t)) 2"]
        exI [of _ "appendInt (int (Minute t)) 2"] exI [of _ "appendInt (int (Second t)) 2"])
      (simp add: UTC_Format_def number_of_appendInt)
next
  assume "m = [] \<or> last m \<noteq> CHR 0x0A"
  then show "last (DefaultLogFormatter_Format t lvl m) = CHR 0x0A"
    by (simp add: DefaultLogFormatter_Format_def)
next
  assume a: "m = [] \<or> last m \<noteq> CHR 0x0A"
  have "butlast (DefaultLogFormatter_Format t lvl m)
      = (LogLevel2String lvl @ '': '' @ UTC_Format t @ '': '') @ m"
    by (simp add: DefaultLogFormatter_Format_def butlast_append)
  with a show "last (butlast (DefaultLogFormatter_Format t lvl m)) \<noteq> CHR 0x0A"
    by (cases "m = []") (simp_all del: append_assoc)
qed

theorem default_wire_format_witness:
  "civil \<lparr>Year = 1999, Month = 12, Day = 31, Hour = 23, Minute = 59, Second = 8\<rparr>
   \<and> DefaultLogFormatter_Format \<lparr>Year = 1999, Month = 12, Day = 31, Hour = 23, Minute = 59, Second = 8\<rparr>
        LOG_LEVEL_WARN ''disk full'' = ''WARN: 1999-12-31T23:59:08 (UTC): disk full'' @ [CHR 0x0A]
   \<and> matches_pattern timestamp_pattern ''1999-12-31T23:59:08 (UTC)''
   \<and> number_of ''1999'' = 1999 \<and> number_of ''08'' = 8
   \<and> last (''WARN: 1999-12-31T23:59:08 (UTC): disk full'' @ [CHR 0x0A]) = CHR 0x0A"
proof -
  let ?t = "\<lparr>Year = 1999, Month = 12, Day = 31, Hour = 23, Minute = 59, Second = 8\<rparr>"
  have c: "civil ?t" by (simp add: civil_def)
  have u: "UTC_Format ?t = ''1999-12-31T23:59:08 (UTC)''"
    by (simp add: UTC_Format_def appendInt_def decimal.simps digit_char_def
        char_of_def bit_Suc_0_iff)
  have n: "number_of ''1999'' = 1999" "number_of ''08'' = 8"
    by (simp_all add: number_of_def digit_value_def)
  have l: "last ''disk full'' \<noteq> CHR 0x0A" by simp
  note T = default_wire_format [of ?t LOG_LEVEL_WARN "''disk full''"]
  from T c u l n show ?thesis by simp
qed

section \<open>Parsing level names\<close>

text \<open>
  C8. A string that upper-cases to \<open>ERROR\<close>, so \<open>ERROR\<close> in any letter case, parses to
  \<open>LOG_LEVEL_WARN\<close>, which is not \<open>LOG_LEVEL_ERROR\<close>; a string that is not one of the
  six names after upper-casing parses to \<open>-1\<close>, and a string that is one never does.
\<close>

theorem error_parses_as_warn:
  "(map ascii_upper s = ''ERROR'' \<longrightarrow> String2LogLevel U s = LOG_LEVEL_WARN)
   \<and> (ToUpper U s = ''ERROR'' \<longrightarrow> String2LogLevel U s = LOG_LEVEL_WARN)
   \<and> LOG_LEVEL_WARN \<noteq> LOG_LEVEL_ERROR
   \<and> (\<not> recognized U s \<longrightarrow> String2LogLevel U s = - 1)
   \<and> (recognized U s \<longrightarrow> String2LogLevel U s \<in>
         {LOG_LEVEL_TRACE, LOG_LEVEL_DEBUG, LOG_LEVEL_INFO, LOG_LEVEL_WARN, LOG_LEVEL_FATAL})"
proof (intro conjI impI)
  assume "map ascii_upper s = ''ERROR''"
  then have "ToUpper U s = ''ERROR''"
    by (rule ToUpper_of_cased) (simp add: is_ascii_def)
  then show "String2LogLevel U s = LOG_LEVEL_WARN"
    by (simp add: String2LogLevel_def)
next
  assume "ToUpper U s = ''ERROR''"
  then show "String2LogLevel U s = LOG_LEVEL_WARN"
    by (simp add: String2LogLevel_def)
next
  show "LOG_LEVEL_WARN \<noteq> LOG_LEVEL_ERROR" by (simp add: level_defs)
next
  assume "\<not> recognized U s"
  then show "String2LogLevel U s = - 1"
    by (simp add: recognized_def level_names_def String2LogLevel_def)
next
  assume "recognized U s"
  then show "String2LogLevel U s \<in>
         {LOG_LEVEL_TRACE, LOG_LEVEL_DEBUG, LOG_LEVEL_INFO, LOG_LEVEL_WARN, LOG_LEVEL_FATAL}"
    by (auto simp: recognized_def level_names_def String2LogLevel_def)
qed

theorem error_parses_as_warn_witness:
  "String2LogLevel id ''eRRor'' = LOG_LEVEL_WARN \<and> String2LogLevel id ''ERROR'' = LOG_LEVEL_WARN
   \<and> \<not> recognized id ''VERBOSE'' \<and> String2LogLevel id ''VERBOSE'' = - 1
   \<and> recognized id ''fatal'' \<and> String2LogLevel id ''fatal'' = LOG_LEVEL_FATAL"
proof -
  have u: "map ascii_upper ''eRRor'' = ''ERROR''" "map ascii_upper ''ERROR'' = ''ERROR''"
    by (simp_all add: ascii_upper_def char_of_def bit_Suc_0_iff)
  have r: "\<not> recognized id ''VERBOSE''" "recognized id ''fatal''"
    by (simp_all add: recognized_def level_names_def ToUpper_def is_ascii_def ascii_upper_def
        char_of_def bit_Suc_0_iff)
  have "String2LogLevel id ''fatal'' = LOG_LEVEL_FATAL"
    by (simp add: String2LogLevel_def ToUpper_def is_ascii_def ascii_upper_def level_defs
        char_of_def bit_Suc_0_iff)
  with u r show ?thesis
    using error_parses_as_warn [of "''eRRor''" id] error_parses_as_warn [of "''ERROR''" id]
      error_parses_as_warn [of "''VERBOSE''" id]
    by simp
qed

section \<open>The HTTP sink\<close>

text \<open>
  C3. \<open>HTTPLogWriter.Write\<close> returns the transport's error when the POST fails, an
  error of its own when the response status is not 200, and \<open>(len(data), nil)\<close> on
  status 200; whenever there is a response its body is closed on return.
\<close>

theorem http_write_fails_unless_200:
  "(post (url w) ''html/text'' data = Inl e \<longrightarrow>
      HTTPLogWriter_Write post w data = ((0, Some e), None))
   \<and> (post (url w) ''html/text'' data = Inr resp \<and> StatusCode resp \<noteq> 200 \<longrightarrow>
        (\<exists>e'. HTTPLogWriter_Write post w data = ((0, Some e'), Some (resp\<lparr>BodyClosed := True\<rparr>))))
   \<and> (post (url w) ''html/text'' data = Inr resp \<and> StatusCode resp = 200 \<longrightarrow>
        HTTPLogWriter_Write post w data = ((length data, None), Some (resp\<lparr>BodyClosed := True\<rparr>)))"
  by (simp add: HTTPLogWriter_Write_def)

theorem http_write_fails_unless_200_witness:
  "HTTPLogWriter_Write (\<lambda>u c d. Inr \<lparr>StatusCode = 500, BodyClosed = False\<rparr>) \<lparr>url = ''http://h/log''\<rparr> ''x''
     = ((0, Some (Err ''HTTPLogWriter: %!s(int=500) error!'')), Some \<lparr>StatusCode = 500, BodyClosed = True\<rparr>)"
  using http_write_fails_unless_200 [of "\<lambda>u c d. Inr \<lparr>StatusCode = 500, BodyClosed = False\<rparr>"
      "\<lparr>url = ''http://h/log''\<rparr>" "''x''" "Err []" "\<lparr>StatusCode = 500, BodyClosed = False\<rparr>"]
  by (simp add: HTTPLogWriter_Write_def appendInt_def decimal.simps digit_char_def
      char_of_def bit_Suc_0_iff)

section \<open>The level filter\<close>

lemma Log_below: "loglevel < level lg \<Longrightarrow> Log F now lg loglevel v env = env"
  by (simp add: Log_def)

lemma Logf_below: "loglevel < level lg \<Longrightarrow> Logf F now lg loglevel format v env = env"
  by (simp add: Logf_def)

lemma Logln_below: "loglevel < level lg \<Longrightarrow> Logln F now lg loglevel v env = env"
  by (simp add: Logln_def)

lemma written_Logger_Format: "written (snd (Logger_Format lg t lvl m env)) = written env"
  by (simp add: Logger_Format_def split: option.splits)

lemma Log_written:
  "level lg \<le> loglevel \<Longrightarrow> writer lg = Some w \<Longrightarrow>
   written (Log F now lg loglevel v env)
     = written env @ [(w, fst (Logger_Format lg now loglevel (Sprint F v) env))]"
  by (simp add: Log_def Let_def Writer_def Write_def Logger_Format_def split: option.splits prod.splits)

lemma Logf_written:
  "level lg \<le> loglevel \<Longrightarrow> writer lg = Some w \<Longrightarrow>
   written (Logf F now lg loglevel format v env)
     = written env @ [(w, fst (Logger_Format lg now loglevel (Sprintf F format v) env))]"
  by (simp add: Logf_def Let_def Writer_def Write_def Logger_Format_def split: option.splits prod.splits)

lemma Logln_written:
  "level lg \<le> loglevel \<Longrightarrow> writer lg = Some w \<Longrightarrow>
   written (Logln F now lg loglevel v env)
     = written env @ [(w, fst (Logger_Format lg now loglevel (Sprintln F v) env))]"
  by (simp add: Logln_def Let_def Writer_def Write_def Logger_Format_def split: option.splits prod.splits)

text \<open>
  C1. A call of \<open>Log\<close>, \<open>Logf\<close> or \<open>Logln\<close> with a level below the threshold leaves
  the environment as it was: no call of the formatter, no write. With a level at or above
  the threshold, the logger's writer receives exactly one more write, the message
  formatted at that level. The same holds for each of the fifteen wrappers from \<open>Trace\<close>
  to \<open>Errorln\<close> at its own level, in its own rendering mode. A logger made by \<open>New\<close> at
  INFO that gets one call each of \<open>Trace\<close>, \<open>Debug\<close>, \<open>Info\<close>, \<open>Warn\<close>, \<open>Error\<close> has
  written three records: Info, Warn, Error, in this order.
\<close>

theorem level_threshold_filtering:
  "(loglevel < level lg \<longrightarrow>
      Log F now lg loglevel v env = env \<and> Logf F now lg loglevel format v env = env
      \<and> Logln F now lg loglevel v env = env)
   \<and> (level lg \<le> loglevel \<and> writer lg = Some w \<longrightarrow>
      written (Log F now lg loglevel v env)
        = written env @ [(w, fst (Logger_Format lg now loglevel (Sprint F v) env))]
      \<and> written (Logf F now lg loglevel format v env)
        = written env @ [(w, fst (Logger_Format lg now loglevel (Sprintf F format v) env))]
      \<and> written (Logln F now lg loglevel v env)
        = written env @ [(w, fst (Logger_Format lg now loglevel (Sprintln F v) env))])
   \<and> (\<forall>(emit, L) \<in> set emitters.
        (L < level lg \<longrightarrow> emit F now lg v env = env)
        \<and> (level lg \<le> L \<and> writer lg = Some w \<longrightarrow>
             written (emit F now lg v env)
               = written env @ [(w, fst (Logger_Format lg now L (Sprint F v) env))]))
   \<and> (\<forall>(emit, L) \<in> set emitters_f.
        (L < level lg \<longrightarrow> emit F now lg format v env = env)
        \<and> (level lg \<le> L \<and> writer lg = Some w \<longrightarrow>
             written (emit F now lg format v env)
               = written env @ [(w, fst (Logger_Format lg now L (Sprintf F format v) env))]))
   \<and> (\<forall>(emit, L) \<in> set emitters_ln.
        (L < level lg \<longrightarrow> emit F now lg v env = env)
        \<and> (level lg \<le> L \<and> writer lg = Some w \<longrightarrow>
             written (emit F now lg v env)
               = written env @ [(w, fst (Logger_Format lg now L (Sprintln F v) env))]))
   \<and> written (Error F t5 (New w LOG_LEVEL_INFO) v5 (Warn F t4 (New w LOG_LEVEL_INFO) v4
        (Info F t3 (New w LOG_LEVEL_INFO) v3 (Debug F t2 (New w LOG_LEVEL_INFO) v2
        (Trace F t1 (New w LOG_LEVEL_INFO) v1 \<lparr>written = [], closes = [], formatted = []\<rparr>)))))
      = [(w, DefaultLogFormatter_Format t3 LOG_LEVEL_INFO (Sprint F v3)),
         (w, DefaultLogFormatter_Format t4 LOG_LEVEL_WARN (Sprint F v4)),
         (w, DefaultLogFormatter_Format t5 LOG_LEVEL_ERROR (Sprint F v5))]"
proof (intro conjI impI)
  assume "loglevel < level lg"
  then show "Log F now lg loglevel v env = env" "Logf F now lg loglevel format v env = env"
    "Logln F now lg loglevel v env = env"
    by (simp_all add: Log_below Logf_below Logln_below)
next
  assume a: "level lg \<le> loglevel \<and> writer lg = Some w"
  then show "written (Log F now lg loglevel v env)
        = written env @ [(w, fst (Logger_Format lg now loglevel (Sprint F v) env))]"
    by (simp add: Log_written)
  from a show "written (Logf F now lg loglevel format v env)
        = written env @ [(w, fst (Logger_Format lg now loglevel (Sprintf F format v) env))]"
    by (simp add: Logf_written)
  from a show "written (Logln F now lg loglevel v env)
        = written env @ [(w, fst (Logger_Format lg now loglevel (Sprintln F v) env))]"
    by (simp add: Logln_written)
next
  show "\<forall>(emit, L) \<in> set emitters.
        (L < level lg \<longrightarrow> emit F now lg v env = env)
        \<and> (level lg \<le> L \<and> writer lg = Some w \<longrightarrow>
             written (emit F now lg v env)
               = written env @ [(w, fst (Logger_Format lg now L (Sprint F v) env))])"
    by (simp add: emitters_def Trace_def Debug_def Info_def Warn_def Error_def Log_below Log_written)
next
  show "\<forall>(emit, L) \<in> set emitters_f.
        (L < level lg \<longrightarrow> emit F now lg format v env = env)
        \<and> (level lg \<le> L \<and> writer lg = Some w \<longrightarrow>
             written (emit F now lg format v env)
               = written env @ [(w, fst (Logger_Format lg now L (Sprintf F format v) env))])"
    by (simp add: emitters_f_def Tracef_def Debugf_def Infof_def Warnf_def Errorf_def
        Logf_below Logf_written)
next
  show "\<forall>(emit, L) \<in> set emitters_ln.
        (L < level lg \<longrightarrow> emit F now lg v env = env)
        \<and> (level lg \<le> L \<and> writer lg = Some w \<longrightarrow>
             written (emit F now lg v env)
               = written env @ [(w, fst (Logger_Format lg now L (Sprintln F v) env))])"
    by (simp add: emitters_ln_def Traceln_def Debugln_def Infoln_def Warnln_def Errorln_def
        Logln_below Logln_written)
next
  show "written (Error F t5 (New w LOG_LEVEL_INFO) v5 (Warn F t4 (New w LOG_LEVEL_INFO) v4
        (Info F t3 (New w LOG_LEVEL_INFO) v3 (Debug F t2 (New w LOG_LEVEL_INFO) v2
        (Trace F t1 (New w LOG_LEVEL_INFO) v1 \<lparr>written = [], closes = [], formatted = []\<rparr>)))))
      = [(w, DefaultLogFormatter_Format t3 LOG_LEVEL_INFO (Sprint F v3)),
         (w, DefaultLogFormatter_Format t4 LOG_LEVEL_WARN (Sprint F v4)),
         (w, DefaultLogFormatter_Format t5 LOG_LEVEL_ERROR (Sprint F v5))]"
    by (simp add: Trace_def Debug_def Info_def Warn_def Error_def Log_def New_def level_defs
        Let_def Writer_def Write_def Logger_Format_def)
qed

lemma sample_stamp: "UTC_Format sample_time = ''2006-01-02T15:04:05 (UTC)''"
  by (simp add: sample_time_def UTC_Format_def appendInt_def decimal.simps digit_char_def
      char_of_def bit_Suc_0_iff)

theorem level_threshold_filtering_witness:
  "Log strings_fmt sample_time (New (Stream 0) LOG_LEVEL_INFO) LOG_LEVEL_DEBUG [''a''] empty_world
     = empty_world
   \<and> written (Log strings_fmt sample_time (New (Stream 0) LOG_LEVEL_INFO) LOG_LEVEL_WARN
        [''a'', ''b''] empty_world)
       = [(Stream 0, ''WARN: 2006-01-02T15:04:05 (UTC): ab'' @ [CHR 0x0A])]
   \<and> Trace strings_fmt sample_time (New (Stream 0) LOG_LEVEL_INFO) [''a''] empty_world = empty_world
   \<and> written (Error strings_fmt sample_time (New (Stream 0) LOG_LEVEL_INFO) [''a''] empty_world)
       = [(Stream 0, ''ERROR: 2006-01-02T15:04:05 (UTC): a'' @ [CHR 0x0A])]
   \<and> Debugf strings_fmt sample_time (New (Stream 0) LOG_LEVEL_INFO) ''fmt'' [] empty_world
       = empty_world
   \<and> written (Infof strings_fmt sample_time (New (Stream 0) LOG_LEVEL_INFO) ''fmt'' [] empty_world)
       = [(Stream 0, ''INFO: 2006-01-02T15:04:05 (UTC): fmt'' @ [CHR 0x0A])]
   \<and> Traceln strings_fmt sample_time (New (Stream 0) LOG_LEVEL_INFO) [''a''] empty_world
       = empty_world
   \<and> written (Warnln strings_fmt sample_time (New (Stream 0) LOG_LEVEL_INFO) [''a'', ''b''] empty_world)
       = [(Stream 0, ''WARN: 2006-01-02T15:04:05 (UTC): a b'' @ [CHR 0x0A, CHR 0x0A])]"
proof -
  let ?lg = "New (Stream 0) LOG_LEVEL_INFO"
  have lo: "LOG_LEVEL_DEBUG < level ?lg" "LOG_LEVEL_TRACE < level ?lg"
    by (simp_all add: New_def level_defs)
  have hi: "level ?lg \<le> LOG_LEVEL_WARN \<and> writer ?lg = Some (Stream 0)"
    "level ?lg \<le> LOG_LEVEL_ERROR \<and> writer ?lg = Some (Stream 0)"
    "level ?lg \<le> LOG_LEVEL_INFO \<and> writer ?lg = Some (Stream 0)"
    by (simp_all add: New_def level_defs)
  have m: "(Trace, LOG_LEVEL_TRACE) \<in> set (emitters :: ((string fmt \<Rightarrow> _) \<times> int) list)"
    "(Error, LOG_LEVEL_ERROR) \<in> set (emitters :: ((string fmt \<Rightarrow> _) \<times> int) list)"
    by (simp_all add: emitters_def)
  have mf: "(Debugf, LOG_LEVEL_DEBUG) \<in> set (emitters_f :: ((string fmt \<Rightarrow> _) \<times> int) list)"
    "(Infof, LOG_LEVEL_INFO) \<in> set (emitters_f :: ((string fmt \<Rightarrow> _) \<times> int) list)"
    by (simp_all add: emitters_f_def)
  have ml: "(Traceln, LOG_LEVEL_TRACE) \<in> set (emitters_ln :: ((string fmt \<Rightarrow> _) \<times> int) list)"
    "(Warnln, LOG_LEVEL_WARN) \<in> set (emitters_ln :: ((string fmt \<Rightarrow> _) \<times> int) list)"
    by (simp_all add: emitters_ln_def)
  have f: "fst (Logger_Format ?lg sample_time LOG_LEVEL_WARN (Sprint strings_fmt [''a'', ''b'']) empty_world)
      = ''WARN: 2006-01-02T15:04:05 (UTC): ab'' @ [CHR 0x0A]"
    "fst (Logger_Format ?lg sample_time LOG_LEVEL_ERROR (Sprint strings_fmt [''a'']) empty_world)
      = ''ERROR: 2006-01-02T15:04:05 (UTC): a'' @ [CHR 0x0A]"
    "fst (Logger_Format ?lg sample_time LOG_LEVEL_INFO (Sprintf strings_fmt ''fmt'' []) empty_world)
      = ''INFO: 2006-01-02T15:04:05 (UTC): fmt'' @ [CHR 0x0A]"
    "fst (Logger_Format ?lg sample_time LOG_LEVEL_WARN (Sprintln strings_fmt [''a'', ''b'']) empty_world)
      = ''WARN: 2006-01-02T15:04:05 (UTC): a b'' @ [CHR 0x0A, CHR 0x0A]"
    by (simp_all add: Logger_Format_def New_def DefaultLogFormatter_Format_def sample_stamp
        LogLevel2String_def level_defs strings_fmt_def)
  have e: "written empty_world = []" by (simp add: empty_world_def)
  note D = level_threshold_filtering [where lg = ?lg and F = strings_fmt and now = sample_time
      and env = empty_world and w = "Stream 0" and loglevel = LOG_LEVEL_DEBUG and v = "[''a'']"
      and format = "''fmt''"]
  note W = level_threshold_filtering [where lg = ?lg and F = strings_fmt and now = sample_time
      and env = empty_world and w = "Stream 0" and loglevel = LOG_LEVEL_WARN and v = "[''a'', ''b'']"
      and format = "''fmt''"]
  note E = level_threshold_filtering [where lg = ?lg and F = strings_fmt and now = sample_time
      and env = empty_world and w = "Stream 0" and loglevel = LOG_LEVEL_WARN and v = "[]"
      and format = "''fmt''"]
  from D [THEN conjunct1] lo
  have 1: "Log strings_fmt sample_time ?lg LOG_LEVEL_DEBUG [''a''] empty_world = empty_world"
    by simp
  from W [THEN conjunct2, THEN conjunct1] hi f e
  have 2: "written (Log strings_fmt sample_time ?lg LOG_LEVEL_WARN [''a'', ''b''] empty_world)
       = [(Stream 0, ''WARN: 2006-01-02T15:04:05 (UTC): ab'' @ [CHR 0x0A])]"
    by simp
  from bspec [OF D [THEN conjunct2, THEN conjunct2, THEN conjunct1] m(1)] lo
  have 3: "Trace strings_fmt sample_time ?lg [''a''] empty_world = empty_world"
    by simp
  from bspec [OF D [THEN conjunct2, THEN conjunct2, THEN conjunct1] m(2)] hi f e
  have 4: "written (Error strings_fmt sample_time ?lg [''a''] empty_world)
       = [(Stream 0, ''ERROR: 2006-01-02T15:04:05 (UTC): a'' @ [CHR 0x0A])]"
    by simp
  from bspec [OF E [THEN conjunct2, THEN conjunct2, THEN conjunct2, THEN conjunct1] mf(1)] lo
  have 5: "Debugf strings_fmt sample_time ?lg ''fmt'' [] empty_world = empty_world"
    by simp
  from bspec [OF E [THEN conjunct2, THEN conjunct2, THEN conjunct2, THEN conjunct1] mf(2)] hi f e
  have 6: "written (Infof strings_fmt sample_time ?lg ''fmt'' [] empty_world)
       = [(Stream 0, ''INFO: 2006-01-02T15:04:05 (UTC): fmt'' @ [CHR 0x0A])]"
    by simp
  from bspec [OF D [THEN conjunct2, THEN conjunct2, THEN conjunct2, THEN conjunct2, THEN conjunct1] ml(1)] lo
  have 7: "Traceln strings_fmt sample_time ?lg [''a''] empty_world = empty_world"
    by simp
  from bspec [OF W [THEN conjunct2, THEN conjunct2, THEN conjunct2, THEN conjunct2, THEN conjunct1] ml(2)] hi f e
  have 8: "written (Warnln strings_fmt sample_time ?lg [''a'', ''b''] empty_world)
       = [(Stream 0, ''WARN: 2006-01-02T15:04:05 (UTC): a b'' @ [CHR 0x0A, CHR 0x0A])]"
    by simp
  from 1 2 3 4 5 6 7 8 show ?thesis by simp
qed

section \<open>Print, Println and Printf\<close>

text \<open>
  C10. \<open>Print\<close>, \<open>Println\<close> and \<open>Printf\<close> do not look at the threshold: on a logger with
  a formatter and a writer each call makes one call of the formatter and one write,
  whatever the level of the logger, and the level handed to the formatter is the
  logger's threshold itself. With the default formatter the record therefore carries
  the name of the threshold.
\<close>

theorem print_ignores_threshold:
  "(formatter lg = Some f \<and> writer lg = Some w \<longrightarrow>
      Print F now lg v env
        = env\<lparr>formatted := formatted env @ [(now, level lg, Sprint F v)],
               written := written env @ [(w, f now (level lg) (Sprint F v))]\<rparr>
      \<and> Println F now lg v env
        = env\<lparr>formatted := formatted env @ [(now, level lg, Sprintln F v)],
               written := written env @ [(w, f now (level lg) (Sprintln F v))]\<rparr>
      \<and> Printf F now lg format v env
        = env\<lparr>formatted := formatted env @ [(now, level lg, Sprintf F format v)],
               written := written env @ [(w, f now (level lg) (Sprintf F format v))]\<rparr>)
   \<and> written (Print F now (New w lvl) v env)
       = written env @ [(w, LogLevel2String lvl @ '': '' @ UTC_Format now @ '': '' @ Sprint F v @ [CHR 0x0A])]"
  by (simp add: Print_def Println_def Printf_def Let_def Writer_def Write_def Logger_Format_def
      New_def DefaultLogFormatter_Format_def)

theorem print_ignores_threshold_witness:
  "Print strings_fmt sample_time (New (Stream 0) LOG_LEVEL_FATAL) [''x''] empty_world
     = \<lparr>written = [(Stream 0, ''FATAL: 2006-01-02T15:04:05 (UTC): x'' @ [CHR 0x0A])],
        closes = [],
        formatted = [(sample_time, LOG_LEVEL_FATAL, ''x'')]\<rparr>
   \<and> Info strings_fmt sample_time (New (Stream 0) LOG_LEVEL_FATAL) [''x''] empty_world = empty_world"
proof -
  let ?lg = "New (Stream 0) LOG_LEVEL_FATAL"
  have h: "formatter ?lg = Some DefaultLogFormatter_Format \<and> writer ?lg = Some (Stream 0)"
    by (simp add: New_def)
  have "Info strings_fmt sample_time ?lg [''x''] empty_world = empty_world"
    by (simp add: Info_def Log_def New_def level_defs)
  then show ?thesis
    using print_ignores_threshold [of ?lg DefaultLogFormatter_Format "Stream 0" strings_fmt sample_time
        "[''x'']" empty_world] h
    by (simp add: New_def empty_world_def DefaultLogFormatter_Format_def sample_stamp LogLevel2String_def
        level_defs strings_fmt_def)
qed

section \<open>Fatal and Panic\<close>

lemma closes_Log: "closes (Log F now lg loglevel v env) = closes env"
  by (simp add: Log_def Let_def Writer_def Write_def Logger_Format_def split: option.splits)

lemma closes_Logf: "closes (Logf F now lg loglevel format v env) = closes env"
  by (simp add: Logf_def Let_def Writer_def Write_def Logger_Format_def split: option.splits)

lemma closes_Logln: "closes (Logln F now lg loglevel v env) = closes env"
  by (simp add: Logln_def Let_def Writer_def Write_def Logger_Format_def split: option.splits)

lemma closing_terminators:
  "fst (Fatalf F now lg format v env) = Exited 1"
  "fst (Fatalln F now lg v env) = Exited 1"
  "fst (Panic F now lg v env) = Panicked"
  "fst (Panicf F now lg format v env) = Panicked"
  "fst (Panicln F now lg v env) = Panicked"
  "closes (snd (Fatalf F now lg format v env)) = closes env @ (case writeCloser lg of Some c \<Rightarrow> [c] | None \<Rightarrow> [])"
  "closes (snd (Fatalln F now lg v env)) = closes env @ (case writeCloser lg of Some c \<Rightarrow> [c] | None \<Rightarrow> [])"
  "closes (snd (Panic F now lg v env)) = closes env @ (case writeCloser lg of Some c \<Rightarrow> [c] | None \<Rightarrow> [])"
  "closes (snd (Panicf F now lg format v env)) = closes env @ (case writeCloser lg of Some c \<Rightarrow> [c] | None \<Rightarrow> [])"
  "closes (snd (Panicln F now lg v env)) = closes env @ (case writeCloser lg of Some c \<Rightarrow> [c] | None \<Rightarrow> [])"
  by (simp_all add: Fatalf_def Fatalln_def Panic_def Panicf_def Panicln_def Let_def Close_def
      closes_Log closes_Logf closes_Logln split: option.splits)

text \<open>
  C5. Every call of the \<open>Fatal\<close> and \<open>Panic\<close> families ends the process or panics,
  whatever the threshold. \<open>Fatalf\<close>, \<open>Fatalln\<close>, \<open>Panic\<close>, \<open>Panicf\<close> and \<open>Panicln\<close> close
  the owned closer first (\<open>closing_terminators\<close>). \<open>Fatal\<close> does not: it exits with the
  list of \<open>Close\<close> calls as it found it, also on a logger that owns a file.
\<close>

theorem Fatal_exits_without_closing:
  "fst (Fatal F now lg v env) = Exited 1
   \<and> closes (snd (Fatal F now lg v env)) = closes env
   \<and> writeCloser (New (File 1) LOG_LEVEL_INFO) = Some (File 1)
   \<and> Fatal strings_fmt sample_time (New (File 1) LOG_LEVEL_INFO) [''boom''] empty_world
       = (Exited 1,
          \<lparr>written = [(File 1, ''FATAL: 2006-01-02T15:04:05 (UTC): boom'' @ [CHR 0x0A])],
           closes = [],
           formatted = [(sample_time, LOG_LEVEL_FATAL, ''boom'')]\<rparr>)
   \<and> closes (snd (Fatalf strings_fmt sample_time (New (File 1) LOG_LEVEL_INFO) ''boom'' [] empty_world)) = [File 1]"
proof (intro conjI)
  show "fst (Fatal F now lg v env) = Exited 1" by (simp add: Fatal_def)
  show "closes (snd (Fatal F now lg v env)) = closes env" by (simp add: Fatal_def closes_Log)
  show "writeCloser (New (File 1) LOG_LEVEL_INFO) = Some (File 1)" by (simp add: New_def)
  show "Fatal strings_fmt sample_time (New (File 1) LOG_LEVEL_INFO) [''boom''] empty_world
       = (Exited 1,
          \<lparr>written = [(File 1, ''FATAL: 2006-01-02T15:04:05 (UTC): boom'' @ [CHR 0x0A])],
           closes = [],
           formatted = [(sample_time, LOG_LEVEL_FATAL, ''boom'')]\<rparr>)"
    by (simp add: Fatal_def Log_def Let_def New_def level_defs Writer_def Write_def
        Logger_Format_def empty_world_def DefaultLogFormatter_Format_def sample_stamp LogLevel2String_def
        strings_fmt_def)
  show "closes (snd (Fatalf strings_fmt sample_time (New (File 1) LOG_LEVEL_INFO) ''boom'' [] empty_world)) = [File 1]"
    by (simp add: closing_terminators New_def empty_world_def)
qed

section \<open>Constructing a file logger\<close>

text \<open>
  C9. When \<open>os.MkdirAll\<close> or \<open>os.OpenFile\<close> fails, \<open>NewFileLogger\<close> hands that error
  back to the caller and never panics, and it fails for no other reason. Otherwise the
  logger writes to the file that \<open>os.OpenFile\<close> opened at \<open>logpath/fname.log\<close> with the
  flags create, write-only and append, where an empty \<open>fname\<close> stands for the base name
  of \<open>os.Args[0]\<close>.
\<close>

theorem NewFileLogger_returns_errors:
  "(MkdirAll os logpath 488 = Some e \<longrightarrow> NewFileLogger os logpath fname0 lvl = Failed e)
   \<and> (MkdirAll os logpath 488 = None
        \<and> OpenFile os (logpath @ ''/'' @ (if fname0 = [] then Base (Args0 os) else fname0) @ ''.log'')
             {O_CREATE, O_WRONLY, O_APPEND} 416 = Inl e
        \<longrightarrow> NewFileLogger os logpath fname0 lvl = Failed e)
   \<and> (MkdirAll os logpath 488 = None
        \<and> OpenFile os (logpath @ ''/'' @ (if fname0 = [] then Base (Args0 os) else fname0) @ ''.log'')
             {O_CREATE, O_WRONLY, O_APPEND} 416 = Inr file
        \<longrightarrow> NewFileLogger os logpath fname0 lvl
              = Constructed \<lparr>level = lvl, path = logpath,
                  fname = (if fname0 = [] then Base (Args0 os) else fname0),
                  writer = Some (File file), writeCloser = Some (File file),
                  formatter = Some DefaultLogFormatter_Format\<rparr>)
   \<and> NewFileLogger os logpath fname0 lvl \<noteq> Crashed e
   \<and> (NewFileLogger os logpath fname0 lvl = Failed e \<longrightarrow>
        MkdirAll os logpath 488 = Some e
        \<or> OpenFile os (logpath @ ''/'' @ (if fname0 = [] then Base (Args0 os) else fname0) @ ''.log'')
             {O_CREATE, O_WRONLY, O_APPEND} 416 = Inl e)"
  by (auto simp: NewFileLogger_def Let_def split: option.splits sum.splits)


theorem NewFileLogger_returns_errors_witness:
  "NewFileLogger sample_os ''/ro/logs'' ''app'' LOG_LEVEL_INFO
     = Failed (Err ''mkdir /ro/logs: read-only file system'')
   \<and> NewFileLogger sample_os ''/var'' ''app'' LOG_LEVEL_INFO = Failed (Err ''open: permission denied'')
   \<and> NewFileLogger sample_os ''/tmp'' [] LOG_LEVEL_INFO
     = Constructed \<lparr>level = LOG_LEVEL_INFO, path = ''/tmp'', fname = ''prog'',
         writer = Some (File 3), writeCloser = Some (File 3),
         formatter = Some DefaultLogFormatter_Format\<rparr>"
  using
    NewFileLogger_returns_errors [of sample_os "''/ro/logs''"
      "Err ''mkdir /ro/logs: read-only file system''" "''app''" LOG_LEVEL_INFO 0]
    NewFileLogger_returns_errors [of sample_os "''/var''"
      "Err ''open: permission denied''" "''app''" LOG_LEVEL_INFO 0]
    NewFileLogger_returns_errors [of sample_os "''/tmp''"
      "Err []" "[]" LOG_LEVEL_INFO 3]
  by (simp add: sample_os_def Base_def)

section \<open>The earlier revision on failure\<close>

text \<open>
  For comparison: the earlier copy panics where the current \<open>NewFileLogger\<close> returns
  the error, and its HTTP writer reports success on every response.
\<close>

lemma NewFileLogger_legacy_panics:
  "MkdirAll os logpath 488 = Some e \<Longrightarrow> NewFileLogger_legacy os logpath fname0 lvl = Crashed e"
  by (simp add: NewFileLogger_legacy_def)

lemma HTTPLogWriter_Write_legacy_ignores_status:
  "post (url w) ''html/text'' data = Inr resp \<Longrightarrow>
   HTTPLogWriter_Write_legacy post w data = ((length data, None), Some (resp\<lparr>BodyClosed := True\<rparr>))"
  by (simp add: HTTPLogWriter_Write_legacy_def)

section \<open>The asynchronous writer drains in order\<close>

lemma accepted_snoc:
  "accepted w k (xs @ [m]) = accepted w k xs @ (case w (k + length xs) m of None \<Rightarrow> [m] | Some e \<Rightarrow> [])"
  by (induction xs arbitrary: k) (auto split: option.splits)

lemma length_bytes: "length (bytes m data) = len data"
  by (simp add: bytes_def)

lemma bytes_store:
  "addr < ptr data \<or> ptr data + len data \<le> addr \<Longrightarrow> bytes (m(addr := c)) data = bytes m data"
  by (auto simp: bytes_def)

lemma untouched_WriteOp: "untouched data (WriteOp d # ops) = untouched data ops"
  by (simp add: untouched_def)

lemma untouched_CloseOp: "untouched data (CloseOp # ops) = untouched data ops"
  by (simp add: untouched_def)

lemma untouched_StoreOp:
  "untouched data (StoreOp addr c # ops)
     = ((addr < ptr data \<or> ptr data + len data \<le> addr) \<and> untouched data ops)"
  by (simp add: untouched_def)

lemma queue_after_store:
  "list_all (\<lambda>data. untouched data (StoreOp addr c # ops)) q \<Longrightarrow>
   map (bytes (m(addr := c))) q = map (bytes m) q \<and> list_all (\<lambda>data. untouched data ops) q"
  by (induction q) (auto simp: untouched_StoreOp bytes_store)

lemma run_append: "run (xs @ ys) s = run ys (run xs s)"
  by (induction xs arbitrary: s) auto

lemma worker_step_sink: "worker_step m a = Some a' \<Longrightarrow> sink a' = sink a"
  by (auto simp: worker_step_def split: wstatus.splits list.splits if_splits)

lemma producer_step_sink: "producer_step s = Some s' \<Longrightarrow> sink (aw s') = sink (aw s)"
  by (auto simp: producer_step_def Let_def split: pstatus.splits list.splits op.splits if_splits)

lemma step_sink: "step t s = Some s' \<Longrightarrow> sink (aw s') = sink (aw s)"
  by (cases t) (auto simp: step_def dest: worker_step_sink producer_step_sink split: option.splits)

lemma run_sink: "sink (aw (run sched s)) = sink (aw s)"
  by (induction sched arbitrary: s) (auto dest: step_sink split: option.splits)

lemma weight_step: "step t s = Some s' \<Longrightarrow> weight s' < weight s"
  by (cases t)
    (auto simp: step_def weight_def producer_step_def worker_step_def Let_def
      split: pstatus.splits list.splits op.splits if_splits wstatus.splits option.splits)

lemma fifo_inv_worker:
  assumes "fifo_inv msgs s" and "worker_step (heap s) (aw s) = Some a'"
  shows "fifo_inv msgs (s\<lparr>aw := a'\<rparr>)"
  using assms
  by (auto simp: fifo_inv_def Let_def worker_step_def accepted_snoc
      split: wstatus.splits list.splits if_splits option.splits)

lemma fifo_inv_producer:
  assumes "fifo_inv msgs s" and "producer_step s = Some s'"
  shows "fifo_inv msgs s'"
proof (cases "prog (caller s)")
  case Nil
  with assms show ?thesis
    by (auto simp: fifo_inv_def producer_step_def Let_def split: pstatus.splits if_splits)
next
  case (Cons x rest)
  show ?thesis
  proof (cases x)
    case (WriteOp data)
    with Cons assms show ?thesis
      by (auto simp: fifo_inv_def producer_step_def Let_def untouched_WriteOp length_bytes
          split: pstatus.splits if_splits)
  next
    case (StoreOp addr c)
    from assms(1) Cons StoreOp
    have q: "list_all (\<lambda>data. untouched data (StoreOp addr c # rest)) (queue (aw s))"
      by (simp add: fifo_inv_def Let_def)
    note qs = queue_after_store [OF q]
    from Cons StoreOp assms qs show ?thesis
      by (auto simp: fifo_inv_def producer_step_def Let_def split: pstatus.splits if_splits)
  next
    case CloseOp
    with Cons assms show ?thesis
      by (cases rest)
        (auto simp: fifo_inv_def producer_step_def Let_def untouched_CloseOp
          split: pstatus.splits if_splits)
  qed
qed

lemma fifo_inv_step: "fifo_inv msgs s \<Longrightarrow> step t s = Some s' \<Longrightarrow> fifo_inv msgs s'"
  by (cases t)
    (auto simp: step_def dest: fifo_inv_worker fifo_inv_producer split: option.splits)

lemma fifo_inv_run: "fifo_inv msgs s \<Longrightarrow> fifo_inv msgs (run sched s)"
proof (induction sched arbitrary: s)
  case Nil
  then show ?case by simp
next
  case (Cons t ts)
  show ?case
  proof (cases "step t s")
    case None
    with Cons show ?thesis by simp
  next
    case (Some s')
    with Cons.prems have "fifo_inv msgs s'" by (blast intro: fifo_inv_step)
    with Cons.IH Some show ?thesis by simp
  qed
qed

lemma fifo_inv_start:
  assumes "NewAsyncLogWriter chan_max w n = Constructed a"
    and "writes_then_close ops" and "undisturbed ops"
  shows "fifo_inv (enqueued m ops) (start a m ops)"
  using assms
  by (auto simp: fifo_inv_def start_def NewAsyncLogWriter_def Let_def DEFAULT_QUEUE_SIZE_def
      split: if_splits)

lemma fifo_inv_progress:
  assumes "fifo_inv msgs s" and "\<not> finished s"
  shows "\<exists>t s'. step t s = Some s'"
proof (cases "producer_step s")
  case (Some s')
  then have "step Producer s = Some s'" by (simp add: step_def)
  then show ?thesis by blast
next
  case None
  with assms have "\<exists>a'. worker_step (heap s) (aw s) = Some a'"
    by (cases "prog (caller s)"; cases "queue (aw s)")
      (auto simp: fifo_inv_def finished_def producer_step_def worker_step_def Let_def
        split: pstatus.splits list.splits op.splits if_splits wstatus.splits)
  then obtain a' where "step Worker s = Some (s\<lparr>aw := a'\<rparr>)" by (auto simp: step_def)
  then show ?thesis by blast
qed

lemma fifo_inv_completes: "fifo_inv msgs s \<Longrightarrow> \<exists>sched. finished (run sched s)"
proof (induction "weight s" arbitrary: s rule: less_induct)
  case less
  show ?case
  proof (cases "finished s")
    case True
    then have "finished (run [] s)" by simp
    then show ?thesis by blast
  next
    case False
    with less.prems obtain t s' where st: "step t s = Some s'"
      using fifo_inv_progress by blast
    then have "weight s' < weight s" and "fifo_inv msgs s'"
      using less.prems by (auto intro: weight_step fifo_inv_step)
    then obtain sched where "finished (run sched s')" using less.hyps by blast
    with st have "finished (run (t # sched) s)" by simp
    then show ?thesis by blast
  qed
qed

lemma bytes_single: "bytes m \<lparr>ptr = k, len = Suc 0\<rparr> = [m k]"
  by (simp add: bytes_def)

text \<open>
  C2, as stated, fails when the caller reuses a buffer: the writer keeps the caller's
  slice, not its bytes. The caller below enqueues \<open>x\<close>, \<open>a\<close>, \<open>b\<close> and \<open>Close\<close> returns, but
  the sink was handed \<open>x\<close>, \<open>b\<close>, \<open>b\<close>.
\<close>

theorem async_reused_buffer_counterexample:
  "NewAsyncLogWriter 1000 always_ok 4 = Constructed sample_writer
   \<and> enqueued sample_memory reusing_caller = [''x'', ''a'', ''b'']
   \<and> finished (run [Producer, Producer, Producer, Producer, Producer,
                    Worker, Worker, Worker, Worker, Producer]
         (start sample_writer sample_memory reusing_caller))
   \<and> attempts (aw (run [Producer, Producer, Producer, Producer, Producer,
                       Worker, Worker, Worker, Worker, Producer]
         (start sample_writer sample_memory reusing_caller))) = [''x'', ''b'', ''b'']"
  by (simp add: NewAsyncLogWriter_def sample_writer_def DEFAULT_QUEUE_SIZE_def reusing_caller_def
      sample_memory_def start_def step_def producer_step_def worker_step_def Let_def
      finished_def bytes_single always_ok_def)

text \<open>
  C2, amended. One goroutine fills buffers, writes messages to a fresh \<open>AsyncLogWriter\<close>
  and then calls \<open>Close\<close>, and it stores nothing into a slice after it has passed it to
  \<open>Write\<close>; the worker runs, in any interleaving. Then the caller never panics and
  every \<open>Write\<close> returns no error; the sink's attempts are at every moment a prefix of
  the messages as enqueued, and the delivered messages are the attempts that the sink
  did not fail. When \<open>Close\<close> has returned, the attempts are exactly the messages as
  enqueued: every message once, in the order of the writes, with its bytes. And \<open>Close\<close>
  does return: every run can be continued to a state where it has.
\<close>

theorem async_fifo_drain:
  assumes "NewAsyncLogWriter chan_max w n = Constructed a"
    and "writes_then_close ops" and "undisturbed ops"
    and "s = run sched (start a m ops)"
  shows "pstat (caller s) \<noteq> ProducerPanicked
    \<and> (\<exists>rest. attempts (aw s) @ rest = enqueued m ops)
    \<and> delivered (aw s) = accepted w 0 (attempts (aw s))
    \<and> (finished s \<longrightarrow>
          attempts (aw s) = enqueued m ops \<and> delivered (aw s) = accepted w 0 (enqueued m ops)
          \<and> returns (caller s) = map (\<lambda>d. (length d, None)) (enqueued m ops))
    \<and> (\<exists>sched'. finished (run (sched @ sched') (start a m ops)))"
proof -
  have inv: "fifo_inv (enqueued m ops) s"
    unfolding assms(4) by (intro fifo_inv_run fifo_inv_start [OF assms(1-3)])
  from assms(1) have "sink a = w"
    by (auto simp: NewAsyncLogWriter_def Let_def split: if_splits)
  then have snk: "sink (aw s) = w"
    unfolding assms(4) by (simp add: run_sink start_def)
  from inv have 1: "pstat (caller s) \<noteq> ProducerPanicked"
    by (auto simp: fifo_inv_def Let_def)
  from inv have 2: "\<exists>rest. attempts (aw s) @ rest = enqueued m ops"
    by (auto simp: fifo_inv_def Let_def)
  from inv snk have 3: "delivered (aw s) = accepted w 0 (attempts (aw s))"
    by (auto simp: fifo_inv_def Let_def)
  from inv have 4: "finished s \<longrightarrow> attempts (aw s) = enqueued m ops
      \<and> returns (caller s) = map (\<lambda>d. (length d, None)) (enqueued m ops)"
    by (auto simp: fifo_inv_def Let_def finished_def)
  from inv obtain sched' where "finished (run sched' s)"
    using fifo_inv_completes by blast
  then have 5: "\<exists>sched'. finished (run (sched @ sched') (start a m ops))"
    unfolding assms(4) run_append [symmetric] by blast
  from 1 2 3 4 5 show ?thesis by simp
qed

lemma careful_run:
  "run [Producer, Producer, Producer, Worker, Producer, Producer, Worker, Worker, Producer]
       (start \<lparr>sink = fails_first, queue = [], qcap = 1, queue_closed = False, worker = Ranging,
               attempts = [], delivered = []\<rparr> sample_memory careful_caller)
   = \<lparr>caller = \<lparr>prog = [], pstat = Ready, returns = [(1, None), (1, None)]\<rparr>,
      aw = \<lparr>sink = fails_first, queue = [], qcap = 1, queue_closed = True, worker = WorkerExited,
            attempts = [''x'', ''b''], delivered = [''b'']\<rparr>,
      heap = sample_memory(5 := CHR ''b'')\<rparr>"
  by (simp add: careful_caller_def sample_memory_def start_def step_def producer_step_def
      worker_step_def Let_def bytes_single fails_first_def)

theorem async_fifo_drain_witness:
  "NewAsyncLogWriter 1000 fails_first 1
     = Constructed \<lparr>sink = fails_first, queue = [], qcap = 1, queue_closed = False,
         worker = Ranging, attempts = [], delivered = []\<rparr>
   \<and> writes_then_close careful_caller \<and> undisturbed careful_caller
   \<and> enqueued sample_memory careful_caller = [''x'', ''b'']
   \<and> finished (run [Producer, Producer, Producer, Worker, Producer, Producer, Worker, Worker, Producer]
       (start \<lparr>sink = fails_first, queue = [], qcap = 1, queue_closed = False, worker = Ranging,
               attempts = [], delivered = []\<rparr> sample_memory careful_caller))
   \<and> attempts (aw (run [Producer, Producer, Producer, Worker, Producer, Producer, Worker, Worker, Producer]
       (start \<lparr>sink = fails_first, queue = [], qcap = 1, queue_closed = False, worker = Ranging,
               attempts = [], delivered = []\<rparr> sample_memory careful_caller))) = [''x'', ''b'']
   \<and> delivered (aw (run [Producer, Producer, Producer, Worker, Producer, Producer, Worker, Worker, Producer]
       (start \<lparr>sink = fails_first, queue = [], qcap = 1, queue_closed = False, worker = Ranging,
               attempts = [], delivered = []\<rparr> sample_memory careful_caller))) = [''b'']
   \<and> returns (caller (run [Producer, Producer, Producer, Worker, Producer, Producer, Worker, Worker, Producer]
       (start \<lparr>sink = fails_first, queue = [], qcap = 1, queue_closed = False, worker = Ranging,
               attempts = [], delivered = []\<rparr> sample_memory careful_caller))) = [(1, None), (1, None)]"
proof -
  let ?a = "\<lparr>sink = fails_first, queue = [], qcap = 1, queue_closed = False, worker = Ranging,
               attempts = [], delivered = []\<rparr>"
  let ?sched = "[Producer, Producer, Producer, Worker, Producer, Producer, Worker, Worker, Producer]"
  let ?s = "run ?sched (start ?a sample_memory careful_caller)"
  have new: "NewAsyncLogWriter 1000 fails_first 1 = Constructed ?a"
    by (simp add: NewAsyncLogWriter_def)
  have shape: "writes_then_close careful_caller" "undisturbed careful_caller"
    by (simp_all add: careful_caller_def untouched_def)
  have enq: "enqueued sample_memory careful_caller = [''x'', ''b'']"
    by (simp add: careful_caller_def sample_memory_def bytes_single)
  have fin: "finished ?s" by (simp only: careful_run) (simp add: finished_def)
  from async_fifo_drain [OF new shape refl, of ?sched sample_memory] fin enq
  have "attempts (aw ?s) = [''x'', ''b'']" "delivered (aw ?s) = accepted fails_first 0 [''x'', ''b'']"
    "returns (caller ?s) = map (\<lambda>d. (length d, None)) [''x'', ''b'']"
    by simp_all
  with new shape enq fin show ?thesis by (simp add: fails_first_def)
qed

section \<open>Closing twice\<close>

lemma close_guard_step: "close_guard s \<Longrightarrow> step t s = Some s' \<Longrightarrow> close_guard s'"
  by (cases t)
    (auto simp: close_guard_def step_def producer_step_def worker_step_def Let_def
      split: pstatus.splits list.splits op.splits if_splits wstatus.splits option.splits)

lemma close_guard_run: "close_guard s \<Longrightarrow> close_guard (run sched s)"
proof (induction sched arbitrary: s)
  case Nil
  then show ?case by simp
next
  case (Cons t ts)
  then show ?case
    by (cases "step t s") (auto dest: close_guard_step)
qed

lemma close_guard_unfinished: "close_guard s \<Longrightarrow> \<not> finished s"
  by (auto simp: close_guard_def finished_def split: if_splits)

text \<open>
  Whatever the interleaving, a goroutine whose program calls \<open>Close\<close> twice on the same
  writer never completes it; and \<open>Close\<close> on a writer whose queue is closed panics.
\<close>

lemma second_close_never_returns:
  "2 \<le> count_list ops CloseOp \<Longrightarrow> \<not> finished (run sched (start a m ops))"
proof -
  assume "2 \<le> count_list ops CloseOp"
  then have "close_guard (start a m ops)"
    by (simp add: close_guard_def start_def)
  then show ?thesis
    by (intro close_guard_unfinished close_guard_run)
qed

lemma close_on_closed_queue_panics:
  "pstat (caller s) = Ready \<Longrightarrow> prog (caller s) = CloseOp # rest \<Longrightarrow> queue_closed (aw s) \<Longrightarrow>
   producer_step s = Some (s\<lparr>caller := (caller s)\<lparr>pstat := ProducerPanicked\<rparr>\<rparr>)"
  by (simp add: producer_step_def)

text \<open>
  A logger made by \<open>New\<close> over an \<open>AsyncLogWriter\<close> owns no closer, because
  \<open>AsyncLogWriter.Close()\<close> has no \<open>error\<close> result: its \<open>Close\<close> never reaches the writer.
\<close>

lemma Logger_Close_over_async: "Logger_Close (New (Async k) lvl) env = env"
  by (simp add: Logger_Close_def New_def)

text \<open>
  C4. \<open>Close\<close> is not repeatable on an \<open>AsyncLogWriter\<close>: a goroutine that calls \<open>Close\<close>
  twice on a fresh writer gets through the first call and panics in the second, at
  \<open>close(w.queue)\<close>, so the second call does not return.
\<close>

theorem async_close_twice_panics:
  "NewAsyncLogWriter 1000 always_ok 4 = Constructed sample_writer
   \<and> run [Producer, Worker, Producer] (start sample_writer sample_memory [CloseOp, CloseOp])
       = \<lparr>caller = \<lparr>prog = [CloseOp], pstat = Ready, returns = []\<rparr>,
          aw = sample_writer\<lparr>queue_closed := True, worker := WorkerExited\<rparr>,
          heap = sample_memory\<rparr>
   \<and> pstat (caller (run [Producer, Worker, Producer, Producer]
         (start sample_writer sample_memory [CloseOp, CloseOp]))) = ProducerPanicked
   \<and> \<not> finished (run [Producer, Worker, Producer, Producer]
         (start sample_writer sample_memory [CloseOp, CloseOp]))"
  by (simp add: NewAsyncLogWriter_def sample_writer_def DEFAULT_QUEUE_SIZE_def start_def step_def
      producer_step_def worker_step_def Let_def finished_def)

end
